theory Spec2Isabelle
  imports Complex_Main
begin

section \<open>Errors and sequencing\<close>

text \<open>
  The two notebooks are straight-line numpy code. An exception ends the call, so every
  operation that can raise returns a sum: \<open>Inl\<close> the exception, \<open>Inr\<close> the value.
\<close>

datatype np_error = ValueError | IndexError | ZeroDivisionError | LinAlgError

definition bnd :: "np_error + 'a \<Rightarrow> ('a \<Rightarrow> np_error + 'b) \<Rightarrow> np_error + 'b" where
  "bnd m f = (case m of Inl e \<Rightarrow> Inl e | Inr x \<Rightarrow> f x)"

section \<open>The numpy operations the notebooks use\<close>

subsection \<open>Indices and slice bounds\<close>

text \<open>
  Python indices are integers: a negative index counts from the end, an index outside
  \<open>-n .. n-1\<close> raises IndexError. The bounds of a slice \<open>lo:hi\<close> never raise; they are
  wrapped once and clipped to \<open>0 .. n\<close>.
\<close>

definition py_index :: "nat \<Rightarrow> int \<Rightarrow> np_error + nat" where
  "py_index n k =
     (if 0 \<le> k \<and> k < int n then Inr (nat k)
      else if - int n \<le> k \<and> k < 0 then Inr (nat (k + int n))
      else Inl IndexError)"

definition py_bound :: "nat \<Rightarrow> int \<Rightarrow> nat" where
  "py_bound n k = (if k < 0 then nat (max 0 (k + int n)) else min n (nat k))"

subsection \<open>Arrays\<close>

text \<open>
  A one-dimensional array is the list of its entries. A two-dimensional array is its list
  of rows together with the length of a row, so that the shape \<open>(0, n)\<close> of an empty slice
  is kept: numpy checks shapes on empty arrays too. \<open>a[i, j]\<close> is \<open>at2 a i j\<close>.
\<close>

datatype 'a arr2 = Arr2 (ncols: nat) (rows: "'a list list")

definition nrows :: "'a arr2 \<Rightarrow> nat" where
  "nrows a = length (rows a)"

definition at2 :: "'a arr2 \<Rightarrow> nat \<Rightarrow> nat \<Rightarrow> 'a" where
  "at2 a i j = rows a ! i ! j"

definition wf2 :: "'a arr2 \<Rightarrow> bool" where
  "wf2 a = list_all (\<lambda>r. length r = ncols a) (rows a)"

definition tab1 :: "nat \<Rightarrow> (nat \<Rightarrow> 'a) \<Rightarrow> 'a list" where
  "tab1 n g = map g [0..<n]"

definition tab2 :: "nat \<Rightarrow> nat \<Rightarrow> (nat \<Rightarrow> nat \<Rightarrow> 'a) \<Rightarrow> 'a arr2" where
  "tab2 m n g = Arr2 n (map (\<lambda>i. map (g i) [0..<n]) [0..<m])"

text \<open>\<open>np.zeros((m, n))\<close>, and a scalar combined with every entry (\<open>1 - a\<close>, \<open>0 * a\<close>).\<close>

definition np_zeros :: "nat \<Rightarrow> nat \<Rightarrow> real arr2" where
  "np_zeros m n = tab2 m n (\<lambda>i j. 0)"

definition smap :: "('a \<Rightarrow> 'b) \<Rightarrow> 'a arr2 \<Rightarrow> 'b arr2" where
  "smap f a = tab2 (nrows a) (ncols a) (\<lambda>i j. f (at2 a i j))"

subsection \<open>Broadcasting\<close>

text \<open>
  Two axes combine when their lengths are equal or one of them is 1; the axis of length 1
  is read at index 0 throughout. Anything else is numpy's
  \<open>ValueError: operands could not be broadcast together\<close>.
\<close>

definition bdim :: "nat \<Rightarrow> nat \<Rightarrow> nat option" where
  "bdim m n = (if m = n then Some m else if m = 1 then Some n else if n = 1 then Some m else None)"

definition bix :: "nat \<Rightarrow> nat \<Rightarrow> nat" where
  "bix n i = (if n = 1 then 0 else i)"

definition binop1 :: "(real \<Rightarrow> real \<Rightarrow> real) \<Rightarrow> real list \<Rightarrow> real list \<Rightarrow> np_error + real list" where
  "binop1 f u v =
     (case bdim (length u) (length v) of
        None \<Rightarrow> Inl ValueError
      | Some n \<Rightarrow> Inr (tab1 n (\<lambda>i. f (u ! bix (length u) i) (v ! bix (length v) i))))"

definition binop2 :: "('a \<Rightarrow> 'b \<Rightarrow> 'c) \<Rightarrow> 'a arr2 \<Rightarrow> 'b arr2 \<Rightarrow> np_error + 'c arr2" where
  "binop2 f a b =
     (case bdim (nrows a) (nrows b) of
        None \<Rightarrow> Inl ValueError
      | Some m \<Rightarrow>
          (case bdim (ncols a) (ncols b) of
             None \<Rightarrow> Inl ValueError
           | Some n \<Rightarrow>
               Inr (tab2 m n (\<lambda>i j. f (at2 a (bix (nrows a) i) (bix (ncols a) j))
                                       (at2 b (bix (nrows b) i) (bix (ncols b) j))))))"

text \<open>A one-dimensional operand of length \<open>n\<close> meets a two-dimensional one as shape \<open>(1, n)\<close>.\<close>

definition as_row :: "'a list \<Rightarrow> 'a arr2" where
  "as_row u = Arr2 (length u) [u]"

subsection \<open>Reading slices, columns and rows\<close>

definition cols_slice :: "real arr2 \<Rightarrow> int \<Rightarrow> int \<Rightarrow> real arr2" where
  "cols_slice a lo hi =
     (let s = py_bound (ncols a) lo; e = py_bound (ncols a) hi
      in tab2 (nrows a) (e - s) (\<lambda>i j. at2 a i (s + j)))"

definition rows_slice :: "real arr2 \<Rightarrow> int \<Rightarrow> int \<Rightarrow> real arr2" where
  "rows_slice a lo hi =
     (let s = py_bound (nrows a) lo; e = py_bound (nrows a) hi
      in tab2 (e - s) (ncols a) (\<lambda>i j. at2 a (s + i) j))"

definition get_col :: "real arr2 \<Rightarrow> int \<Rightarrow> np_error + real list" where
  "get_col a k = bnd (py_index (ncols a) k) (\<lambda>c. Inr (tab1 (nrows a) (\<lambda>i. at2 a i c)))"

definition get_row :: "real arr2 \<Rightarrow> int \<Rightarrow> np_error + real list" where
  "get_row a k = bnd (py_index (nrows a) k) (\<lambda>r. Inr (tab1 (ncols a) (\<lambda>j. at2 a r j)))"

subsection \<open>Assigning to slices, columns and rows\<close>

text \<open>
  The value is broadcast to the shape of the target: each of its axes has the target's
  length or length 1, else numpy raises
  \<open>ValueError: could not broadcast input array\<close>. The model returns the updated array.
\<close>

definition fits :: "nat \<Rightarrow> nat \<Rightarrow> bool" where
  "fits k n = (k = n \<or> k = 1)"

definition set_cols :: "real arr2 \<Rightarrow> int \<Rightarrow> int \<Rightarrow> real arr2 \<Rightarrow> np_error + real arr2" where
  "set_cols a lo hi v =
     (let s = py_bound (ncols a) lo; e = py_bound (ncols a) hi
      in if fits (nrows v) (nrows a) \<and> fits (ncols v) (e - s)
         then Inr (tab2 (nrows a) (ncols a)
                 (\<lambda>i j. if s \<le> j \<and> j < e then at2 v (bix (nrows v) i) (bix (ncols v) (j - s))
                        else at2 a i j))
         else Inl ValueError)"

definition set_rows :: "real arr2 \<Rightarrow> int \<Rightarrow> int \<Rightarrow> real arr2 \<Rightarrow> np_error + real arr2" where
  "set_rows a lo hi v =
     (let s = py_bound (nrows a) lo; e = py_bound (nrows a) hi
      in if fits (nrows v) (e - s) \<and> fits (ncols v) (ncols a)
         then Inr (tab2 (nrows a) (ncols a)
                 (\<lambda>i j. if s \<le> i \<and> i < e then at2 v (bix (nrows v) (i - s)) (bix (ncols v) j)
                        else at2 a i j))
         else Inl ValueError)"

definition set_col :: "real arr2 \<Rightarrow> int \<Rightarrow> real list \<Rightarrow> np_error + real arr2" where
  "set_col a k v =
     bnd (py_index (ncols a) k) (\<lambda>c.
       if fits (length v) (nrows a)
       then Inr (tab2 (nrows a) (ncols a)
               (\<lambda>i j. if j = c then v ! bix (length v) i else at2 a i j))
       else Inl ValueError)"

definition set_row :: "real arr2 \<Rightarrow> int \<Rightarrow> real list \<Rightarrow> np_error + real arr2" where
  "set_row a k v =
     bnd (py_index (nrows a) k) (\<lambda>r.
       if fits (length v) (ncols a)
       then Inr (tab2 (nrows a) (ncols a)
               (\<lambda>i j. if i = r then v ! bix (length v) j else at2 a i j))
       else Inl ValueError)"

subsection \<open>Numbers that may be infinite\<close>

text \<open>
  Arithmetic is exact: a number is a real, with no rounding and no range. Division by a
  zero entry of an array is the one place where numpy leaves the reals: it raises nothing
  and answers \<open>inf\<close>, and from there on \<open>inf\<close>, \<open>-inf\<close> and \<open>nan\<close> travel through the
  products and sums as values. An array that may hold them has entries of type
  \<open>npfloat\<close>; \<open>Fin r\<close> is the real \<open>r\<close>. \<open>nan\<close> absorbs everything, an infinity times zero
  and the sum of the two infinities are \<open>nan\<close>, and an infinity times a number takes the
  sign of the product.
\<close>

datatype npfloat = Fin real | PInf | NInf | NaN

definition signed_inf :: "real \<Rightarrow> npfloat" where
  "signed_inf s = (if s = 0 then NaN else if 0 < s then PInf else NInf)"

fun fl_sign :: "npfloat \<Rightarrow> real" where
  "fl_sign (Fin a) = a"
| "fl_sign PInf = 1"
| "fl_sign NInf = - 1"
| "fl_sign NaN = 0"

fun fl_mul :: "npfloat \<Rightarrow> npfloat \<Rightarrow> npfloat" where
  "fl_mul (Fin a) (Fin b) = Fin (a * b)"
| "fl_mul NaN y = NaN"
| "fl_mul x NaN = NaN"
| "fl_mul x y = signed_inf (fl_sign x * fl_sign y)"

fun fl_add :: "npfloat \<Rightarrow> npfloat \<Rightarrow> npfloat" where
  "fl_add (Fin a) (Fin b) = Fin (a + b)"
| "fl_add NaN y = NaN"
| "fl_add x NaN = NaN"
| "fl_add PInf NInf = NaN"
| "fl_add NInf PInf = NaN"
| "fl_add PInf y = PInf"
| "fl_add x PInf = PInf"
| "fl_add NInf y = NInf"
| "fl_add x NInf = NInf"

text \<open>An array of reals, read as an array of such numbers.\<close>

definition finite_array :: "real arr2 \<Rightarrow> npfloat arr2" where
  "finite_array a = Arr2 (ncols a) (map (map Fin) (rows a))"

subsection \<open>Reciprocal squares\<close>

text \<open>
  \<open>1/dy**2\<close> is Python arithmetic on a number, as the notebook's \<open>dy = 1\<close>: a zero divisor
  raises ZeroDivisionError. \<open>1/dx**2\<close> is numpy arithmetic on an array: a zero entry gives
  \<open>inf\<close> and nothing is raised.
\<close>

definition scalar_recip_sq :: "real \<Rightarrow> np_error + real" where
  "scalar_recip_sq h = (if h ^ 2 = 0 then Inl ZeroDivisionError else Inr (1 / h ^ 2))"

definition array_recip_sq :: "real list \<Rightarrow> npfloat list" where
  "array_recip_sq hs = map (\<lambda>h. if h ^ 2 = 0 then PInf else Fin (1 / h ^ 2)) hs"

section \<open>LaplacianHack.ipynb: \<open>Laplacian2D\<close>\<close>

text \<open>
  \<open>field\<close> and \<open>landMask\<close> are two-dimensional arrays indexed \<open>[x, y]\<close>, \<open>dx\<close> is a
  one-dimensional array and \<open>dy\<close> a Python number. \<open>Nx = np.size(field,0)\<close> and
  \<open>Ny = np.size(field,1)\<close> are Python integers, so \<open>Ny-1\<close> is \<open>-1\<close> on an empty axis.

  The y-direction block. \<open>fluxRight_y\<close> is lines 58 to 60 of the notebook:
  \<^verbatim>\<open>
    fluxRight = np.zeros((Nx,Ny))
    fluxRight[:,0:Ny-1] = notLand[:,1:Ny]*(field[:,1:Ny] - field[:,0:Ny-1])
    fluxRight[:,Ny-1] = notLand[:,0]*(field[:,0]-field[:,Ny-1])
  \<close>
  and \<open>fluxLeft_y\<close> is lines 61 to 63:
  \<^verbatim>\<open>
    fluxLeft = np.zeros((Nx,Ny))
    fluxLeft[:,1:Ny] = notLand[:,0:Ny-1]*(field[:,1:Ny] - field[:,0:Ny-1])
    fluxLeft[:,0] = notLand[:,Ny-1]*(field[:,0]-field[:,Ny-1])
  \<close>
\<close>

definition fluxRight_y :: "real arr2 \<Rightarrow> real arr2 \<Rightarrow> np_error + real arr2" where
  "fluxRight_y field notLand =
     (let Nx = nrows field; Ny = ncols field in
      bnd (binop2 (-) (cols_slice field 1 (int Ny)) (cols_slice field 0 (int Ny - 1))) (\<lambda>d.
      bnd (binop2 (*) (cols_slice notLand 1 (int Ny)) d) (\<lambda>v.
      bnd (set_cols (np_zeros Nx Ny) 0 (int Ny - 1) v) (\<lambda>fluxRight.
      bnd (get_col notLand 0) (\<lambda>n0.
      bnd (get_col field 0) (\<lambda>f0.
      bnd (get_col field (int Ny - 1)) (\<lambda>f1.
      bnd (binop1 (-) f0 f1) (\<lambda>d1.
      bnd (binop1 (*) n0 d1) (\<lambda>v1.
      set_col fluxRight (int Ny - 1) v1)))))))))"

definition fluxLeft_y :: "real arr2 \<Rightarrow> real arr2 \<Rightarrow> np_error + real arr2" where
  "fluxLeft_y field notLand =
     (let Nx = nrows field; Ny = ncols field in
      bnd (binop2 (-) (cols_slice field 1 (int Ny)) (cols_slice field 0 (int Ny - 1))) (\<lambda>d.
      bnd (binop2 (*) (cols_slice notLand 0 (int Ny - 1)) d) (\<lambda>v.
      bnd (set_cols (np_zeros Nx Ny) 1 (int Ny) v) (\<lambda>fluxLeft.
      bnd (get_col notLand (int Ny - 1)) (\<lambda>n1.
      bnd (get_col field 0) (\<lambda>f0.
      bnd (get_col field (int Ny - 1)) (\<lambda>f1.
      bnd (binop1 (-) f0 f1) (\<lambda>d1.
      bnd (binop1 (*) n1 d1) (\<lambda>v1.
      set_col fluxLeft 0 v1)))))))))"

text \<open>
  The x-direction block starts from the old flux arrays times zero (lines 66 and 67) and
  fills them along the first axis. \<open>fluxRight_x\<close> is lines 66, 68 and 69:
  \<^verbatim>\<open>
    fluxRight = 0*fluxRight
    fluxRight[0:Nx-1,:] = notLand[1:Nx,:]*(field[1:Nx,:] - field[0:Nx-1,:])
    fluxRight[Nx-1,:] = notLand[0,:]*(field[0,:]-field[Nx-1,:])
  \<close>
  and \<open>fluxLeft_x\<close> is lines 67, 70 and 71:
  \<^verbatim>\<open>
    fluxLeft = 0*fluxLeft
    fluxLeft[1:Nx,:] = notLand[0:Nx-1,:]*(field[1:Nx,:] - field[0:Nx-1,:])
    fluxLeft[0,:] = notLand[Nx-1,:]*(field[0,:]-field[Nx-1,:])
  \<close>
\<close>

definition fluxRight_x :: "real arr2 \<Rightarrow> real arr2 \<Rightarrow> real arr2 \<Rightarrow> np_error + real arr2" where
  "fluxRight_x field notLand old =
     (let Nx = nrows field in
      bnd (binop2 (-) (rows_slice field 1 (int Nx)) (rows_slice field 0 (int Nx - 1))) (\<lambda>d.
      bnd (binop2 (*) (rows_slice notLand 1 (int Nx)) d) (\<lambda>v.
      bnd (set_rows (smap (\<lambda>z. 0 * z) old) 0 (int Nx - 1) v) (\<lambda>fluxRight.
      bnd (get_row notLand 0) (\<lambda>n0.
      bnd (get_row field 0) (\<lambda>f0.
      bnd (get_row field (int Nx - 1)) (\<lambda>f1.
      bnd (binop1 (-) f0 f1) (\<lambda>d1.
      bnd (binop1 (*) n0 d1) (\<lambda>v1.
      set_row fluxRight (int Nx - 1) v1)))))))))"

definition fluxLeft_x :: "real arr2 \<Rightarrow> real arr2 \<Rightarrow> real arr2 \<Rightarrow> np_error + real arr2" where
  "fluxLeft_x field notLand old =
     (let Nx = nrows field in
      bnd (binop2 (-) (rows_slice field 1 (int Nx)) (rows_slice field 0 (int Nx - 1))) (\<lambda>d.
      bnd (binop2 (*) (rows_slice notLand 0 (int Nx - 1)) d) (\<lambda>v.
      bnd (set_rows (smap (\<lambda>z. 0 * z) old) 1 (int Nx) v) (\<lambda>fluxLeft.
      bnd (get_row notLand (int Nx - 1)) (\<lambda>n1.
      bnd (get_row field 0) (\<lambda>f0.
      bnd (get_row field (int Nx - 1)) (\<lambda>f1.
      bnd (binop1 (-) f0 f1) (\<lambda>d1.
      bnd (binop1 (*) n1 d1) (\<lambda>v1.
      set_row fluxLeft 0 v1)))))))))"

text \<open>
  \<open>Laplacian2D_OUT\<close> is the function up to line 72, the value of \<open>OUT\<close> before the
  \<open>return\<close>: \<open>notLand = 1 - landMask\<close>, the y block, \<open>OUT = (1/dy**2)*(fluxRight - fluxLeft)\<close>,
  the x block and \<open>OUT = OUT + (1/dx**2)*(fluxRight - fluxLeft)\<close>. The statements run in
  the source's order, and so do the operands of each. Up to \<open>1/dx**2\<close> every array holds
  reals; the product with \<open>1/dx**2\<close>, the sum on line 72 and the product on line 73 are
  taken in \<open>npfloat\<close>, the real operand entering as \<open>Fin\<close>.
\<close>

definition Laplacian2D_OUT ::
  "real arr2 \<Rightarrow> real arr2 \<Rightarrow> real list \<Rightarrow> real \<Rightarrow> np_error + npfloat arr2" where
  "Laplacian2D_OUT field landMask dx dy =
     (let notLand = smap (\<lambda>z. 1 - z) landMask in
      bnd (fluxRight_y field notLand) (\<lambda>fluxRight.
      bnd (fluxLeft_y field notLand) (\<lambda>fluxLeft.
      bnd (scalar_recip_sq dy) (\<lambda>cy.
      bnd (binop2 (-) fluxRight fluxLeft) (\<lambda>dy2.
      let OUT = smap (\<lambda>z. cy * z) dy2 in
      bnd (fluxRight_x field notLand fluxRight) (\<lambda>fluxRight.
      bnd (fluxLeft_x field notLand fluxLeft) (\<lambda>fluxLeft.
      let cx = array_recip_sq dx in
      bnd (binop2 (-) fluxRight fluxLeft) (\<lambda>dx2.
      bnd (binop2 (\<lambda>c z. fl_mul c (Fin z)) (as_row cx) dx2) (\<lambda>px.
      binop2 (\<lambda>z p. fl_add (Fin z) p) OUT px)))))))))"

text \<open>Line 73: \<open>return OUT*landMask\<close>.\<close>

definition Laplacian2D ::
  "real arr2 \<Rightarrow> real arr2 \<Rightarrow> real list \<Rightarrow> real \<Rightarrow> np_error + npfloat arr2" where
  "Laplacian2D field landMask dx dy =
     bnd (Laplacian2D_OUT field landMask dx dy)
       (\<lambda>OUT. binop2 (\<lambda>p z. fl_mul p (Fin z)) OUT landMask)"

subsection \<open>The contract and the discretisation, as the notebook states them\<close>

text \<open>
  The docstring's contract: \<open>landMask\<close> has the size of \<open>field\<close>, \<open>dx\<close> has the size of
  the second dimension of \<open>field\<close>, \<open>dy\<close> is a constant. Arrays are rectangular and not
  empty, and the spacings are not zero, so that every quotient is a real.
\<close>

definition inputs_ok :: "real arr2 \<Rightarrow> real arr2 \<Rightarrow> real list \<Rightarrow> real \<Rightarrow> bool" where
  "inputs_ok field landMask dx dy =
     (wf2 field \<and> wf2 landMask \<and> 0 < nrows field \<and> 0 < ncols field \<and>
      nrows landMask = nrows field \<and> ncols landMask = ncols field \<and>
      length dx = ncols field \<and> dy \<noteq> 0 \<and> 0 \<notin> set dx)"

text \<open>
  The flux form along one periodic axis of length \<open>N\<close>, written from the description and
  not from the code: the flux through the right face of cell \<open>idx\<close> and through its left
  face, each switched off by \<open>notLand\<close> of the neighbour, and their difference for the two
  axes of the grid. \<open>idx - 1\<close> on the periodic axis is \<open>(idx + N - 1) mod N\<close>.
\<close>

definition spec_fluxRight :: "nat \<Rightarrow> (nat \<Rightarrow> real) \<Rightarrow> (nat \<Rightarrow> real) \<Rightarrow> nat \<Rightarrow> real" where
  "spec_fluxRight N notLand u idx = notLand ((idx + 1) mod N) * (u ((idx + 1) mod N) - u idx)"

definition spec_fluxLeft :: "nat \<Rightarrow> (nat \<Rightarrow> real) \<Rightarrow> (nat \<Rightarrow> real) \<Rightarrow> nat \<Rightarrow> real" where
  "spec_fluxLeft N notLand u idx =
     notLand ((idx + N - 1) mod N) * (u idx - u ((idx + N - 1) mod N))"

definition spec_div_y :: "real arr2 \<Rightarrow> real arr2 \<Rightarrow> nat \<Rightarrow> nat \<Rightarrow> real" where
  "spec_div_y field landMask i j =
     spec_fluxRight (ncols field) (\<lambda>y. 1 - at2 landMask i y) (\<lambda>y. at2 field i y) j -
     spec_fluxLeft (ncols field) (\<lambda>y. 1 - at2 landMask i y) (\<lambda>y. at2 field i y) j"

definition spec_div_x :: "real arr2 \<Rightarrow> real arr2 \<Rightarrow> nat \<Rightarrow> nat \<Rightarrow> real" where
  "spec_div_x field landMask i j =
     spec_fluxRight (nrows field) (\<lambda>x. 1 - at2 landMask x j) (\<lambda>x. at2 field x j) i -
     spec_fluxLeft (nrows field) (\<lambda>x. 1 - at2 landMask x j) (\<lambda>x. at2 field x j) i"

subsection \<open>Sample grids\<close>

text \<open>
  The 3 by 3 torus with a single spike in the middle, an all-water mask, a mask with one
  land cell under the spike, and an uneven field with uneven spacings.
\<close>

definition spike3 :: "real arr2" where
  "spike3 = Arr2 3 [[0, 0, 0], [0, 1, 0], [0, 0, 0]]"

definition water3 :: "real arr2" where
  "water3 = Arr2 3 [[0, 0, 0], [0, 0, 0], [0, 0, 0]]"

definition island3 :: "real arr2" where
  "island3 = Arr2 3 [[0, 0, 0], [0, 1, 0], [0, 0, 0]]"

definition hills3 :: "real arr2" where
  "hills3 = Arr2 3 [[1, 2, 4], [0, 7, 3], [5, 0, 6]]"

definition steps3 :: "real list" where
  "steps3 = [1, 2, 1 / 2]"

section \<open>FilterWeights.ipynb: \<open>getWeights\<close>\<close>

subsection \<open>One-dimensional arrays\<close>

text \<open>
  \<open>np.zeros(n)\<close>, \<open>w[k] = v\<close>, the slice \<open>w[lo:hi]\<close>, the assignment \<open>w[lo:hi] = v\<close> with
  the value broadcast to the slice, and \<open>np.sum\<close>. \<open>w[1:]\<close> is the slice up to the length.
\<close>

definition np_zeros1 :: "nat \<Rightarrow> real list" where
  "np_zeros1 n = replicate n 0"

definition set_item :: "real list \<Rightarrow> int \<Rightarrow> real \<Rightarrow> np_error + real list" where
  "set_item w k v = bnd (py_index (length w) k) (\<lambda>i. Inr (w[i := v]))"

definition slice1 :: "real list \<Rightarrow> int \<Rightarrow> int \<Rightarrow> real list" where
  "slice1 w lo hi =
     (let s = py_bound (length w) lo; e = py_bound (length w) hi
      in tab1 (e - s) (\<lambda>i. w ! (s + i)))"

definition set_slice1 :: "real list \<Rightarrow> int \<Rightarrow> int \<Rightarrow> real list \<Rightarrow> np_error + real list" where
  "set_slice1 w lo hi v =
     (let s = py_bound (length w) lo; e = py_bound (length w) hi
      in if fits (length v) (e - s)
         then Inr (tab1 (length w)
                 (\<lambda>i. if s \<le> i \<and> i < e then v ! bix (length v) (i - s) else w ! i))
         else Inl ValueError)"

definition np_sum :: "real list \<Rightarrow> real" where
  "np_sum w = sum_list w"

definition np_eye :: "nat \<Rightarrow> real arr2" where
  "np_eye n = tab2 n n (\<lambda>i j. if i = j then 1 else 0)"

subsection \<open>The function\<close>

text \<open>
  \<open>getWeights(n)\<close> reads the interpolant \<open>F\<close>, a global of the notebook, and calls
  \<open>scipy.integrate.quad\<close> and \<open>numpy.linalg.solve\<close>. None of the three is code of the
  notebook: \<open>F\<close> is passed in, \<open>quad f a b\<close> stands for the first component of what
  \<open>integrate.quad(f, a, b)\<close> returns, and \<open>solve A b\<close> for \<open>np.linalg.solve(A, b)\<close>, which
  may raise. \<open>n\<close> is a natural number.

  The integrand of the loop body, \<open>lambda k: 2*(F(k)-1)*(np.cos((i+1)*k)-1)\<close>:
\<close>

definition integrand :: "(real \<Rightarrow> real) \<Rightarrow> nat \<Rightarrow> real \<Rightarrow> real" where
  "integrand F i k = 2 * (F k - 1) * (cos ((real i + 1) * k) - 1)"

text \<open>
  The loop \<open>for i in range(n): w[i] = integrate.quad(integrand,0,np.pi)[0]\<close>, over the list
  of the values of \<open>i\<close> still to come.
\<close>

fun fill_loop ::
  "((real \<Rightarrow> real) \<Rightarrow> real \<Rightarrow> real \<Rightarrow> real) \<Rightarrow> (real \<Rightarrow> real) \<Rightarrow> nat list \<Rightarrow> real list \<Rightarrow>
     np_error + real list" where
  "fill_loop quad F [] w = Inr w"
| "fill_loop quad F (i # rest) w =
     bnd (set_item w (int i) (quad (integrand F i) 0 pi)) (fill_loop quad F rest)"

text \<open>\<open>A = 2*np.pi*(np.eye(n) + 2)\<close>.\<close>

definition filter_matrix :: "nat \<Rightarrow> real arr2" where
  "filter_matrix n = smap (\<lambda>z. 2 * pi * z) (smap (\<lambda>z. z + 2) (np_eye n))"

text \<open>
  \<^verbatim>\<open>
    w = np.zeros(n+1)
    for i in range(n): ...
    A = 2*np.pi*(np.eye(n) + 2)
    w[1:] = np.linalg.solve(A,w[0:n])
    w[0] = 1 - 2*np.sum(w[1:])
    return w
  \<close>
\<close>

definition getWeights ::
  "(real \<Rightarrow> real) \<Rightarrow> ((real \<Rightarrow> real) \<Rightarrow> real \<Rightarrow> real \<Rightarrow> real) \<Rightarrow>
     (real arr2 \<Rightarrow> real list \<Rightarrow> np_error + real list) \<Rightarrow> nat \<Rightarrow> np_error + real list" where
  "getWeights F quad solve n =
     bnd (fill_loop quad F [0..<n] (np_zeros1 (n + 1))) (\<lambda>w.
     let A = filter_matrix n in
     bnd (solve A (slice1 w 0 (int n))) (\<lambda>t.
     bnd (set_slice1 w 1 (int (length w)) t) (\<lambda>w.
     set_item w 0 (1 - 2 * np_sum (slice1 w 1 (int (length w)))))))"

text \<open>
  The symmetric kernel of length \<open>2n+1\<close> that the weights \<open>w[0..n]\<close> stand for: the tail
  reversed, then the centre tap and the tail. The product of a matrix and a vector, for
  the linear system the description names. And two stand-ins for the library, to run the
  function on: the midpoint rule for \<open>quad\<close>, and for \<open>solve\<close> Cramer's rule on a 2 by 2
  system, which raises on anything else. \<open>step_response\<close> is a sharp target response: it
  passes the wavenumbers up to \<open>1/2\<close> and blocks the rest.
\<close>

definition full_kernel :: "real list \<Rightarrow> real list" where
  "full_kernel w = rev (tl w) @ w"

definition matvec :: "real arr2 \<Rightarrow> real list \<Rightarrow> real list" where
  "matvec A v = map (\<lambda>r. sum_list (map2 (*) r v)) (rows A)"

definition midpoint_quad :: "(real \<Rightarrow> real) \<Rightarrow> real \<Rightarrow> real \<Rightarrow> real" where
  "midpoint_quad f a b = (b - a) * f ((a + b) / 2)"

definition solve2 :: "real arr2 \<Rightarrow> real list \<Rightarrow> np_error + real list" where
  "solve2 A b =
     (if nrows A = 2 \<and> ncols A = 2 \<and> length b = 2 \<and>
         at2 A 0 0 * at2 A 1 1 - at2 A 0 1 * at2 A 1 0 \<noteq> 0
      then Inr [(at2 A 1 1 * b ! 0 - at2 A 0 1 * b ! 1) /
                  (at2 A 0 0 * at2 A 1 1 - at2 A 0 1 * at2 A 1 0),
                (at2 A 0 0 * b ! 1 - at2 A 1 0 * b ! 0) /
                  (at2 A 0 0 * at2 A 1 1 - at2 A 0 1 * at2 A 1 0)]
      else Inl LinAlgError)"

definition step_response :: "real \<Rightarrow> real" where
  "step_response k = (if k \<le> 1 / 2 then 1 else 0)"

text \<open>
  The right-hand side of the description, \<open>b[i-1]\<close> the quadrature of
  \<open>2 * (F(k) - 1) * (cos(i * k) - 1)\<close> over \<open>[0, pi]\<close> for the offsets \<open>i = 1 .. n\<close>.
\<close>

definition spec_rhs ::
  "(real \<Rightarrow> real) \<Rightarrow> ((real \<Rightarrow> real) \<Rightarrow> real \<Rightarrow> real \<Rightarrow> real) \<Rightarrow> nat \<Rightarrow> real list" where
  "spec_rhs F quad n =
     map (\<lambda>i. quad (\<lambda>k. 2 * (F k - 1) * (cos (real i * k) - 1)) 0 pi) [1..<n + 1]"

subsection \<open>The target response\<close>

text \<open>
  Line 37 of the notebook builds the target response from the coarsening factor \<open>x\<close>:
  \<^verbatim>\<open>F = interpolate.PchipInterpolator(np.array([0,1/x,np.pi/x,np.pi]),np.array([1,1,0,0]))\<close>
  The knots and the values are the notebook's.
\<close>

definition response_knots :: "real \<Rightarrow> real list" where
  "response_knots x = [0, 1 / x, pi / x, pi]"

definition response_values :: "real list" where
  "response_values = [1, 1, 0, 0]"

text \<open>
  Modelled from the spec: the interpolant itself, \<open>scipy.interpolate.PchipInterpolator\<close>,
  is library code that the repository does not hold. The description asks for a
  shape-preserving monotone piecewise-cubic interpolant of the Fritsch-Carlson kind; the
  model is that scheme. On each interval the curve is the cubic Hermite polynomial of the
  end values and end derivatives. The derivative at an inner knot is zero where the two
  neighbouring slopes differ in sign or one of them is zero, and their weighted harmonic
  mean otherwise; at an end knot it is the one-sided three-point estimate, set to zero
  when its sign is not the sign of the first slope and cut to three times that slope when
  the slopes change sign and the estimate is larger. With two knots only, the curve is the
  straight line.
\<close>

fun diffs :: "real list \<Rightarrow> real list" where
  "diffs (a # b # xs) = (b - a) # diffs (b # xs)"
| "diffs xs = []"

definition slopes :: "real list \<Rightarrow> real list \<Rightarrow> real list" where
  "slopes xs ys = map2 (\<lambda>dy h. dy / h) (diffs ys) (diffs xs)"

definition pchip_inner :: "real \<Rightarrow> real \<Rightarrow> real \<Rightarrow> real \<Rightarrow> real" where
  "pchip_inner h0 h1 m0 m1 =
     (if sgn m1 \<noteq> sgn m0 \<or> m1 = 0 \<or> m0 = 0 then 0
      else (let w1 = 2 * h1 + h0; w2 = h1 + 2 * h0
            in 1 / ((w1 / m0 + w2 / m1) / (w1 + w2))))"

definition pchip_edge :: "real \<Rightarrow> real \<Rightarrow> real \<Rightarrow> real \<Rightarrow> real" where
  "pchip_edge h0 h1 m0 m1 =
     (let d = ((2 * h0 + h1) * m0 - h0 * m1) / (h0 + h1)
      in if sgn d \<noteq> sgn m0 then 0
         else if sgn m0 \<noteq> sgn m1 \<and> 3 * \<bar>m0\<bar> < \<bar>d\<bar> then 3 * m0
         else d)"

fun pchip_inners :: "real list \<Rightarrow> real list \<Rightarrow> real list" where
  "pchip_inners (h0 # h1 # hs) (m0 # m1 # ms) =
     pchip_inner h0 h1 m0 m1 # pchip_inners (h1 # hs) (m1 # ms)"
| "pchip_inners hs ms = []"

definition pchip_derivatives :: "real list \<Rightarrow> real list \<Rightarrow> real list" where
  "pchip_derivatives xs ys =
     (let h = diffs xs; m = slopes xs ys; r = length h
      in if r = 1 then [m ! 0, m ! 0]
         else pchip_edge (h ! 0) (h ! 1) (m ! 0) (m ! 1) # pchip_inners h m @
              [pchip_edge (h ! (r - 1)) (h ! (r - 2)) (m ! (r - 1)) (m ! (r - 2))])"

definition hermite :: "real \<Rightarrow> real \<Rightarrow> real \<Rightarrow> real \<Rightarrow> real \<Rightarrow> real \<Rightarrow> real \<Rightarrow> real" where
  "hermite x0 x1 y0 y1 d0 d1 k =
     (let h = x1 - x0; t = (k - x0) / h
      in (2 * t ^ 3 - 3 * t ^ 2 + 1) * y0 + (t ^ 3 - 2 * t ^ 2 + t) * h * d0 +
         (3 * t ^ 2 - 2 * t ^ 3) * y1 + (t ^ 3 - t ^ 2) * h * d1)"

fun pchip_eval :: "real list \<Rightarrow> real list \<Rightarrow> real list \<Rightarrow> real \<Rightarrow> real" where
  "pchip_eval (x0 # x1 # xs) (y0 # y1 # ys) (d0 # d1 # ds) k =
     (if k \<le> x1 \<or> xs = [] then hermite x0 x1 y0 y1 d0 d1 k
      else pchip_eval (x1 # xs) (y1 # ys) (d1 # ds) k)"
| "pchip_eval xs ys ds k = 0"

text \<open>
  Modelled from the spec: the constructor of the interpolant, library code as well. It
  wants at least two knots, as many values, and the knots strictly increasing, which is
  the description's condition \<open>1/x < pi/x < pi\<close>; it raises ValueError otherwise. Outside
  the knots the first and the last polynomial go on.
\<close>

definition PchipInterpolator :: "real list \<Rightarrow> real list \<Rightarrow> np_error + (real \<Rightarrow> real)" where
  "PchipInterpolator xs ys =
     (if 2 \<le> length xs \<and> length ys = length xs \<and> sorted_wrt (<) xs
      then Inr (pchip_eval xs ys (pchip_derivatives xs ys))
      else Inl ValueError)"

text \<open>
  Line 37 itself: \<open>1/x\<close> and \<open>np.pi/x\<close> are Python arithmetic on a number, which raises
  for \<open>x = 0\<close>, then the interpolant is built on the knots and values above.
\<close>

definition target_response :: "real \<Rightarrow> np_error + (real \<Rightarrow> real)" where
  "target_response x =
     (if x = 0 then Inl ZeroDivisionError
      else PchipInterpolator (response_knots x) response_values)"

section \<open>Properties of the array operations\<close>

lemma length_tab1 [simp]: "length (tab1 n g) = n"
  by (simp add: tab1_def)

lemma nth_tab1 [simp]: "i < n \<Longrightarrow> tab1 n g ! i = g i"
  by (simp add: tab1_def)

lemma tab1_cong [cong]:
  "n = n' \<Longrightarrow> (\<And>i. i < n' \<Longrightarrow> g i = h i) \<Longrightarrow> tab1 n g = tab1 n' h"
  by (simp add: tab1_def)

lemma nrows_tab2 [simp]: "nrows (tab2 m n g) = m"
  by (simp add: tab2_def nrows_def)

lemma ncols_tab2 [simp]: "ncols (tab2 m n g) = n"
  by (simp add: tab2_def)

lemma at2_tab2 [simp]: "i < m \<Longrightarrow> j < n \<Longrightarrow> at2 (tab2 m n g) i j = g i j"
  by (simp add: tab2_def at2_def)

lemma wf2_tab2 [simp]: "wf2 (tab2 m n g)"
  by (simp add: tab2_def wf2_def list_all_iff)

lemma tab2_cong [cong]:
  "m = m' \<Longrightarrow> n = n' \<Longrightarrow> (\<And>i j. i < m' \<Longrightarrow> j < n' \<Longrightarrow> g i j = h i j) \<Longrightarrow> tab2 m n g = tab2 m' n' h"
  by (simp add: tab2_def)

lemma wf2_tab2_conv: "wf2 a \<Longrightarrow> a = tab2 (nrows a) (ncols a) (at2 a)"
  by (cases a) (auto simp: wf2_def tab2_def nrows_def at2_def list_all_iff intro!: nth_equalityI)

lemma bnd_Inr [simp]: "bnd (Inr x) f = f x"
  by (simp add: bnd_def)

lemma bnd_Inl [simp]: "bnd (Inl e) f = Inl e"
  by (simp add: bnd_def)

lemma py_bound_0 [simp]: "py_bound n 0 = 0"
  by (simp add: py_bound_def)

lemma py_bound_1 [simp]: "py_bound n 1 = min n 1"
  by (simp add: py_bound_def)

lemma py_bound_full [simp]: "py_bound n (int n) = n"
  by (simp add: py_bound_def)

lemma py_bound_pred [simp]: "0 < n \<Longrightarrow> py_bound n (int n - 1) = n - 1"
  by (auto simp: py_bound_def)

lemma py_index_nat [simp]: "k < n \<Longrightarrow> py_index n (int k) = Inr k"
  by (simp add: py_index_def)

lemma py_index_pred [simp]: "0 < n \<Longrightarrow> py_index n (int n - 1) = Inr (n - 1)"
  by (auto simp: py_index_def nat_diff_distrib')

lemma py_index_0 [simp]: "0 < n \<Longrightarrow> py_index n 0 = Inr 0"
  by (simp add: py_index_def)

lemma smap_tab2 [simp]: "smap c (tab2 m n g) = tab2 m n (\<lambda>i j. c (g i j))"
  by (simp add: smap_def)

lemma binop1_tab1 [simp]:
  "binop1 f (tab1 n g) (tab1 n h) = Inr (tab1 n (\<lambda>i. f (g i) (h i)))"
  by (auto simp: binop1_def bdim_def bix_def intro!: tab1_cong)

lemma binop2_tab2 [simp]:
  "binop2 f (tab2 m n g) (tab2 m n h) = Inr (tab2 m n (\<lambda>i j. f (g i j) (h i j)))"
  by (auto simp: binop2_def bdim_def bix_def intro!: tab2_cong)

lemma binop2_as_row [simp]:
  "binop2 f (as_row (tab1 n c)) (tab2 m n g) = Inr (tab2 m n (\<lambda>i j. f (c j) (g i j)))"
proof -
  have a: "nrows (as_row (tab1 n c)) = 1" "ncols (as_row (tab1 n c)) = n"
    by (simp_all add: as_row_def nrows_def)
  have b: "\<And>j. j < n \<Longrightarrow> at2 (as_row (tab1 n c)) 0 j = c j"
    by (simp add: as_row_def at2_def)
  show ?thesis
    by (auto simp: binop2_def bdim_def bix_def a b intro!: tab2_cong)
qed

lemma cols_slice_tab2 [simp]:
  "cols_slice (tab2 m n g) lo hi =
     tab2 m (py_bound n hi - py_bound n lo) (\<lambda>i j. g i (py_bound n lo + j))"
proof -
  have "py_bound n hi \<le> n" by (auto simp: py_bound_def)
  then show ?thesis by (simp add: cols_slice_def Let_def)
qed

lemma rows_slice_tab2 [simp]:
  "rows_slice (tab2 m n g) lo hi =
     tab2 (py_bound m hi - py_bound m lo) n (\<lambda>i j. g (py_bound m lo + i) j)"
proof -
  have "py_bound m hi \<le> m" by (auto simp: py_bound_def)
  then show ?thesis by (simp add: rows_slice_def Let_def)
qed

lemma get_col_tab2 [simp]:
  "py_index n k = Inr c \<Longrightarrow> get_col (tab2 m n g) k = Inr (tab1 m (\<lambda>i. g i c))"
  by (auto simp: get_col_def py_index_def split: if_splits)

lemma get_row_tab2 [simp]:
  "py_index m k = Inr r \<Longrightarrow> get_row (tab2 m n g) k = Inr (tab1 n (\<lambda>j. g r j))"
  by (auto simp: get_row_def py_index_def split: if_splits)

lemma set_col_tab2 [simp]:
  "py_index n k = Inr c \<Longrightarrow>
   set_col (tab2 m n g) k (tab1 m v) = Inr (tab2 m n (\<lambda>i j. if j = c then v i else g i j))"
  by (auto simp: set_col_def fits_def bix_def intro!: tab2_cong)

lemma set_row_tab2 [simp]:
  "py_index m k = Inr r \<Longrightarrow>
   set_row (tab2 m n g) k (tab1 n v) = Inr (tab2 m n (\<lambda>i j. if i = r then v j else g i j))"
  by (auto simp: set_row_def fits_def bix_def intro!: tab2_cong)

lemma set_cols_tab2 [simp]:
  "w = py_bound n hi - py_bound n lo \<Longrightarrow>
   set_cols (tab2 m n g) lo hi (tab2 m w v) =
     Inr (tab2 m n (\<lambda>i j. if py_bound n lo \<le> j \<and> j < py_bound n hi then v i (j - py_bound n lo)
                           else g i j))"
  by (auto simp: set_cols_def fits_def bix_def Let_def intro!: tab2_cong)

lemma set_rows_tab2 [simp]:
  "w = py_bound m hi - py_bound m lo \<Longrightarrow>
   set_rows (tab2 m n g) lo hi (tab2 w n v) =
     Inr (tab2 m n (\<lambda>i j. if py_bound m lo \<le> i \<and> i < py_bound m hi then v (i - py_bound m lo) j
                           else g i j))"
  by (auto simp: set_rows_def fits_def bix_def Let_def intro!: tab2_cong)

lemma Suc_mod_wrap: "j < n \<Longrightarrow> Suc j mod n = (if Suc j = n then 0 else Suc j)"
  by (simp add: mod_Suc)

lemma fluxRight_y_tab:
  assumes "0 < n"
  shows "fluxRight_y (tab2 m n f) (tab2 m n q) =
     Inr (tab2 m n (\<lambda>i j. q i (Suc j mod n) * (f i (Suc j mod n) - f i j)))"
  using assms
  by (simp add: fluxRight_y_def Let_def np_zeros_def)
     (auto intro!: tab2_cong simp: Suc_mod_wrap)

lemma pred_mod_wrap:
  "j < n \<Longrightarrow> (j + n - Suc 0) mod n = (if j = 0 then n - Suc 0 else j - Suc 0)"
proof (cases j)
  case 0
  assume "j < n"
  with 0 show ?thesis by simp
next
  case (Suc k)
  assume "j < n"
  with Suc have "j + n - Suc 0 = k + n" and "k < n" by simp_all
  with Suc show ?thesis by simp
qed

lemma fluxLeft_y_tab:
  assumes "0 < n"
  shows "fluxLeft_y (tab2 m n f) (tab2 m n q) =
     Inr (tab2 m n (\<lambda>i j. q i ((j + n - 1) mod n) * (f i j - f i ((j + n - 1) mod n))))"
  using assms
  by (simp add: fluxLeft_y_def Let_def np_zeros_def)
     (auto intro!: tab2_cong simp: pred_mod_wrap)

lemma fluxRight_x_tab:
  assumes "0 < m"
  shows "fluxRight_x (tab2 m n f) (tab2 m n q) (tab2 m n old) =
     Inr (tab2 m n (\<lambda>i j. q (Suc i mod m) j * (f (Suc i mod m) j - f i j)))"
  using assms
  by (simp add: fluxRight_x_def Let_def)
     (auto intro!: tab2_cong simp: Suc_mod_wrap)

lemma fluxLeft_x_tab:
  assumes "0 < m"
  shows "fluxLeft_x (tab2 m n f) (tab2 m n q) (tab2 m n old) =
     Inr (tab2 m n (\<lambda>i j. q ((i + m - 1) mod m) j * (f i j - f ((i + m - 1) mod m) j)))"
  using assms
  by (simp add: fluxLeft_x_def Let_def)
     (auto intro!: tab2_cong simp: pred_mod_wrap)

subsection \<open>What a result or an error says about the shapes\<close>

lemma bnd_eq_Inr: "bnd m f = Inr y \<longleftrightarrow> (\<exists>x. m = Inr x \<and> f x = Inr y)"
  by (cases m) simp_all

lemma bnd_eq_Inl: "bnd m f = Inl e \<longleftrightarrow> m = Inl e \<or> (\<exists>x. m = Inr x \<and> f x = Inl e)"
  by (cases m) simp_all

lemma nrows_cols_slice [simp]: "nrows (cols_slice a lo hi) = nrows a"
  by (simp add: cols_slice_def Let_def)

lemma ncols_cols_slice [simp]:
  "ncols (cols_slice a lo hi) = py_bound (ncols a) hi - py_bound (ncols a) lo"
  by (simp add: cols_slice_def Let_def)

lemma nrows_rows_slice [simp]:
  "nrows (rows_slice a lo hi) = py_bound (nrows a) hi - py_bound (nrows a) lo"
  by (simp add: rows_slice_def Let_def)

lemma ncols_rows_slice [simp]: "ncols (rows_slice a lo hi) = ncols a"
  by (simp add: rows_slice_def Let_def)

lemma nrows_smap [simp]: "nrows (smap f a) = nrows a"
  by (simp add: smap_def)

lemma ncols_smap [simp]: "ncols (smap f a) = ncols a"
  by (simp add: smap_def)

lemma nrows_np_zeros [simp]: "nrows (np_zeros m n) = m"
  by (simp add: np_zeros_def)

lemma ncols_np_zeros [simp]: "ncols (np_zeros m n) = n"
  by (simp add: np_zeros_def)

lemma binop2_Inr:
  "binop2 f a b = Inr c \<Longrightarrow>
   bdim (nrows a) (nrows b) = Some (nrows c) \<and> bdim (ncols a) (ncols b) = Some (ncols c)"
  by (auto simp: binop2_def split: option.splits)

lemma binop2_Inl: "binop2 f a b = Inl e \<Longrightarrow> e = ValueError"
  by (auto simp: binop2_def split: option.splits)

lemma binop1_Inr: "binop1 f u v = Inr w \<Longrightarrow> bdim (length u) (length v) = Some (length w)"
  by (auto simp: binop1_def split: option.splits)

lemma binop1_Inl: "binop1 f u v = Inl e \<Longrightarrow> e = ValueError"
  by (auto simp: binop1_def split: option.splits)

lemma py_index_Inl: "py_index n k = Inl e \<Longrightarrow> e = IndexError"
  by (auto simp: py_index_def split: if_splits)

lemma get_col_Inr:
  "get_col a k = Inr v \<Longrightarrow> (\<exists>c. py_index (ncols a) k = Inr c) \<and> length v = nrows a"
  by (auto simp: get_col_def bnd_eq_Inr)

lemma get_col_Inl: "get_col a k = Inl e \<Longrightarrow> e = IndexError"
  by (auto simp: get_col_def bnd_eq_Inl dest: py_index_Inl)

lemma get_row_Inr:
  "get_row a k = Inr v \<Longrightarrow> (\<exists>c. py_index (nrows a) k = Inr c) \<and> length v = ncols a"
  by (auto simp: get_row_def bnd_eq_Inr)

lemma get_row_Inl: "get_row a k = Inl e \<Longrightarrow> e = IndexError"
  by (auto simp: get_row_def bnd_eq_Inl dest: py_index_Inl)

lemma set_col_Inr:
  "set_col a k v = Inr b \<Longrightarrow>
   fits (length v) (nrows a) \<and> nrows b = nrows a \<and> ncols b = ncols a"
  by (auto simp: set_col_def bnd_eq_Inr split: if_splits)

lemma set_col_Inl: "set_col a k v = Inl e \<Longrightarrow> e = ValueError \<or> e = IndexError"
  by (auto simp: set_col_def bnd_eq_Inl dest: py_index_Inl split: if_splits)

lemma set_row_Inr:
  "set_row a k v = Inr b \<Longrightarrow>
   fits (length v) (ncols a) \<and> nrows b = nrows a \<and> ncols b = ncols a"
  by (auto simp: set_row_def bnd_eq_Inr split: if_splits)

lemma set_row_Inl: "set_row a k v = Inl e \<Longrightarrow> e = ValueError \<or> e = IndexError"
  by (auto simp: set_row_def bnd_eq_Inl dest: py_index_Inl split: if_splits)

lemma set_cols_Inr:
  "set_cols a lo hi v = Inr b \<Longrightarrow> nrows b = nrows a \<and> ncols b = ncols a"
  by (auto simp: set_cols_def Let_def split: if_splits)

lemma set_cols_Inl: "set_cols a lo hi v = Inl e \<Longrightarrow> e = ValueError"
  by (auto simp: set_cols_def Let_def split: if_splits)

lemma set_rows_Inr:
  "set_rows a lo hi v = Inr b \<Longrightarrow> nrows b = nrows a \<and> ncols b = ncols a"
  by (auto simp: set_rows_def Let_def split: if_splits)

lemma set_rows_Inl: "set_rows a lo hi v = Inl e \<Longrightarrow> e = ValueError"
  by (auto simp: set_rows_def Let_def split: if_splits)

lemmas prim_Inl = binop2_Inl binop1_Inl get_col_Inl get_row_Inl set_col_Inl set_row_Inl
  set_cols_Inl set_rows_Inl

lemma fluxRight_y_Inl: "fluxRight_y f q = Inl e \<Longrightarrow> e = ValueError \<or> e = IndexError"
  unfolding fluxRight_y_def Let_def bnd_eq_Inl
  by (auto dest: prim_Inl)

lemma fits_bdim:
  "bdim k n = Some r \<Longrightarrow> fits r n \<Longrightarrow> k = n \<or> k = 1"
  by (auto simp: bdim_def fits_def split: if_splits)

lemma fluxRight_y_Inr:
  assumes "fluxRight_y f q = Inr r"
  shows "(nrows q = nrows f \<or> nrows q = 1) \<and> nrows r = nrows f \<and> ncols r = ncols f"
  using assms unfolding fluxRight_y_def Let_def bnd_eq_Inr
  apply clarify
  apply (drule get_col_Inr)+
  apply (drule binop1_Inr)+
  apply (drule set_col_Inr)
  apply (drule set_cols_Inr)
  apply (auto dest: fits_bdim simp: bdim_def fits_def split: if_splits)
  done

lemma fluxLeft_y_Inl: "fluxLeft_y f q = Inl e \<Longrightarrow> e = ValueError \<or> e = IndexError"
  unfolding fluxLeft_y_def Let_def bnd_eq_Inl
  by (auto dest: prim_Inl)

lemma fluxRight_x_Inl: "fluxRight_x f q old = Inl e \<Longrightarrow> e = ValueError \<or> e = IndexError"
  unfolding fluxRight_x_def Let_def bnd_eq_Inl
  by (auto dest: prim_Inl)

lemma fluxLeft_x_Inl: "fluxLeft_x f q old = Inl e \<Longrightarrow> e = ValueError \<or> e = IndexError"
  unfolding fluxLeft_x_def Let_def bnd_eq_Inl
  by (auto dest: prim_Inl)

lemma py_index_pred_Inr: "py_index n (int k - 1) = Inr c \<Longrightarrow> 0 < k \<Longrightarrow> k \<le> n"
  by (auto simp: py_index_def split: if_splits)

lemma fluxLeft_y_Inr:
  assumes "fluxLeft_y f q = Inr r" and "0 < ncols f"
  shows "ncols f \<le> ncols q"
  using assms unfolding fluxLeft_y_def Let_def bnd_eq_Inr
  by (auto dest!: get_col_Inr dest: py_index_pred_Inr)

lemma fluxRight_x_Inr:
  assumes "fluxRight_x f q old = Inr r" and "ncols old = ncols f"
  shows "ncols q = ncols f \<or> ncols q = 1"
  using assms unfolding fluxRight_x_def Let_def bnd_eq_Inr
  apply clarify
  apply (drule get_row_Inr)+
  apply (drule binop1_Inr)+
  apply (drule set_row_Inr)
  apply (drule set_rows_Inr)
  apply (auto dest: fits_bdim simp: bdim_def fits_def split: if_splits)
  done

lemma fluxLeft_x_Inr:
  assumes "fluxLeft_x f q old = Inr r" and "0 < nrows f"
  shows "nrows f \<le> nrows q"
  using assms unfolding fluxLeft_x_def Let_def bnd_eq_Inr
  by (auto dest!: get_row_Inr dest: py_index_pred_Inr)

lemma blocks_shape:
  assumes "fluxRight_y f q = Inr a" "fluxLeft_y f q = Inr b"
    "fluxRight_x f q a = Inr c" "fluxLeft_x f q b' = Inr d"
    "0 < nrows f" "0 < ncols f"
  shows "nrows q = nrows f \<and> ncols q = ncols f"
proof -
  note ry = fluxRight_y_Inr[OF assms(1)]
  then have "ncols a = ncols f" by simp
  from fluxRight_x_Inr[OF assms(3) this] fluxLeft_y_Inr[OF assms(2) assms(6)]
    fluxLeft_x_Inr[OF assms(4) assms(5)] ry assms(5,6)
  show ?thesis by auto
qed

lemma scalar_recip_sq_Inl: "scalar_recip_sq h = Inl e \<Longrightarrow> e = ZeroDivisionError \<and> h = 0"
  by (auto simp: scalar_recip_sq_def split: if_splits)

lemma OUT_Inr_blocks:
  assumes "Laplacian2D_OUT f k dx dy = Inr out"
  shows "\<exists>a b c d. fluxRight_y f (smap (\<lambda>z. 1 - z) k) = Inr a \<and>
      fluxLeft_y f (smap (\<lambda>z. 1 - z) k) = Inr b \<and>
      fluxRight_x f (smap (\<lambda>z. 1 - z) k) a = Inr c \<and>
      fluxLeft_x f (smap (\<lambda>z. 1 - z) k) b = Inr d"
  using assms unfolding Laplacian2D_OUT_def Let_def bnd_eq_Inr
  by blast

lemma OUT_Inl_kinds:
  assumes "Laplacian2D_OUT f k dx dy = Inl e"
  shows "e = ValueError \<or> e = IndexError \<or> (e = ZeroDivisionError \<and> dy = 0)"
  using assms unfolding Laplacian2D_OUT_def Let_def bnd_eq_Inl
  apply (elim disjE exE conjE)
  apply (auto dest: prim_Inl fluxRight_y_Inl fluxLeft_y_Inl fluxRight_x_Inl fluxLeft_x_Inl
      scalar_recip_sq_Inl)
  done

lemma Laplacian2D_Inl_kinds:
  assumes "Laplacian2D f k dx dy = Inl e"
  shows "e = ValueError \<or> e = IndexError \<or> (e = ZeroDivisionError \<and> dy = 0)"
  using assms unfolding Laplacian2D_def bnd_eq_Inl
  by (auto dest: OUT_Inl_kinds binop2_Inl)

lemma array_recip_sq_tab1:
  "array_recip_sq dx =
     tab1 (length dx) (\<lambda>j. if (dx ! j) ^ 2 = 0 then PInf else Fin (1 / (dx ! j) ^ 2))"
  by (auto simp: array_recip_sq_def tab1_def intro!: nth_equalityI)

lemma length_array_recip_sq [simp]: "length (array_recip_sq dx) = length dx"
  by (simp add: array_recip_sq_def)

lemma array_recip_sq_nth:
  "j < length dx \<Longrightarrow> 0 \<notin> set dx \<Longrightarrow> array_recip_sq dx ! j = Fin (1 / (dx ! j) ^ 2)"
proof -
  assume j: "j < length dx" and z: "0 \<notin> set dx"
  from j have "dx ! j \<in> set dx" by (rule nth_mem)
  with z have "dx ! j \<noteq> 0" by metis
  with j show ?thesis by (simp add: array_recip_sq_def)
qed

lemma list_tab1: "xs = tab1 (length xs) (\<lambda>i. xs ! i)"
  by (simp add: tab1_def map_nth)

lemma scalar_recip_sq_ok: "dy \<noteq> 0 \<Longrightarrow> scalar_recip_sq dy = Inr (1 / dy ^ 2)"
  by (simp add: scalar_recip_sq_def)

lemma finite_array_tab2 [simp]: "finite_array (tab2 m n g) = tab2 m n (\<lambda>i j. Fin (g i j))"
  by (simp add: finite_array_def tab2_def)

lemma OUT_prefix:
  assumes "0 < m" "0 < n" "dy \<noteq> 0"
  shows "Laplacian2D_OUT (tab2 m n f) (tab2 m n k) dx dy =
     bnd (binop2 (\<lambda>c z. fl_mul c (Fin z)) (as_row (array_recip_sq dx))
            (tab2 m n (\<lambda>i j. spec_div_x (tab2 m n f) (tab2 m n k) i j)))
       (\<lambda>px. binop2 (\<lambda>z p. fl_add (Fin z) p)
            (tab2 m n (\<lambda>i j. 1 / dy ^ 2 * spec_div_y (tab2 m n f) (tab2 m n k) i j)) px)"
  using assms
  apply (simp add: Laplacian2D_OUT_def Let_def fluxRight_y_tab fluxLeft_y_tab
      fluxRight_x_tab fluxLeft_x_tab scalar_recip_sq_ok)
  apply (simp add: spec_div_x_def spec_div_y_def spec_fluxRight_def spec_fluxLeft_def)
  done

lemma OUT_tab:
  assumes "0 < m" "0 < n" "dy \<noteq> 0" "length dx = n"
  shows "Laplacian2D_OUT (tab2 m n f) (tab2 m n k) dx dy =
     Inr (tab2 m n (\<lambda>i j.
       fl_add (Fin (1 / dy ^ 2 * spec_div_y (tab2 m n f) (tab2 m n k) i j))
         (fl_mul (array_recip_sq dx ! j) (Fin (spec_div_x (tab2 m n f) (tab2 m n k) i j)))))"
proof -
  have c: "array_recip_sq dx = tab1 n (\<lambda>j. array_recip_sq dx ! j)"
    using list_tab1[of "array_recip_sq dx"] assms(4) by simp
  show ?thesis
    unfolding OUT_prefix[OF assms(1-3)]
    by (subst c) (simp add: binop2_as_row)
qed

lemma OUT_general:
  assumes "wf2 field" "wf2 landMask" "0 < nrows field" "0 < ncols field"
    "nrows landMask = nrows field" "ncols landMask = ncols field"
    "dy \<noteq> 0" "length dx = ncols field"
  shows "Laplacian2D_OUT field landMask dx dy =
     Inr (tab2 (nrows field) (ncols field) (\<lambda>i j.
       fl_add (Fin (1 / dy ^ 2 * spec_div_y field landMask i j))
         (fl_mul (array_recip_sq dx ! j) (Fin (spec_div_x field landMask i j)))))"
proof -
  from assms have f: "field = tab2 (nrows field) (ncols field) (at2 field)"
    and k: "landMask = tab2 (nrows field) (ncols field) (at2 landMask)"
    using wf2_tab2_conv[of field] wf2_tab2_conv[of landMask] by simp_all
  show ?thesis
    using OUT_tab[OF assms(3,4,7,8), of "at2 field" "at2 landMask"] f k by simp
qed

lemma OUT_value:
  assumes "inputs_ok field landMask dx dy"
  shows "Laplacian2D_OUT field landMask dx dy =
     Inr (finite_array (tab2 (nrows field) (ncols field)
       (\<lambda>i j. 1 / dy ^ 2 * spec_div_y field landMask i j +
              1 / (dx ! j) ^ 2 * spec_div_x field landMask i j)))"
proof -
  from assms have *: "wf2 field" "wf2 landMask" "0 < nrows field" "0 < ncols field"
    "nrows landMask = nrows field" "ncols landMask = ncols field"
    "dy \<noteq> 0" "length dx = ncols field"
    and z: "0 \<notin> set dx"
    by (simp_all add: inputs_ok_def)
  show ?thesis
    unfolding OUT_general[OF *]
    using z *(8) by (simp add: array_recip_sq_nth)
qed

lemma Laplacian2D_general:
  assumes "wf2 field" "wf2 landMask" "0 < nrows field" "0 < ncols field"
    "nrows landMask = nrows field" "ncols landMask = ncols field"
    "dy \<noteq> 0" "length dx = ncols field"
  shows "Laplacian2D field landMask dx dy =
     Inr (tab2 (nrows field) (ncols field) (\<lambda>i j.
       fl_mul (fl_add (Fin (1 / dy ^ 2 * spec_div_y field landMask i j))
           (fl_mul (array_recip_sq dx ! j) (Fin (spec_div_x field landMask i j))))
         (Fin (at2 landMask i j))))"
proof -
  from assms have k: "landMask = tab2 (nrows field) (ncols field) (at2 landMask)"
    using wf2_tab2_conv[of landMask] by simp
  have "binop2 h (tab2 (nrows field) (ncols field) g) landMask =
      Inr (tab2 (nrows field) (ncols field) (\<lambda>i j. h (g i j) (at2 landMask i j)))" for g h
    by (subst k) (simp only: binop2_tab2)
  then show ?thesis
    by (simp add: Laplacian2D_def OUT_general[OF assms])
qed

lemma Laplacian2D_value:
  assumes "inputs_ok field landMask dx dy"
  shows "Laplacian2D field landMask dx dy =
     Inr (finite_array (tab2 (nrows field) (ncols field)
       (\<lambda>i j. (1 / dy ^ 2 * spec_div_y field landMask i j +
               1 / (dx ! j) ^ 2 * spec_div_x field landMask i j) * at2 landMask i j)))"
proof -
  from assms have *: "wf2 field" "wf2 landMask" "0 < nrows field" "0 < ncols field"
    "nrows landMask = nrows field" "ncols landMask = ncols field"
    "dy \<noteq> 0" "length dx = ncols field"
    and z: "0 \<notin> set dx"
    by (simp_all add: inputs_ok_def)
  show ?thesis
    unfolding Laplacian2D_general[OF *]
    using z *(8) by (simp add: array_recip_sq_nth)
qed

subsection \<open>Sums along a periodic axis\<close>

lemma sum_wrap_succ:
  fixes g :: "nat \<Rightarrow> real"
  shows "(\<Sum>j<n. g (Suc j mod n)) = (\<Sum>j<n. g j)"
  by (intro sum.reindex_bij_witness[of _ "\<lambda>j. (j + n - Suc 0) mod n" "\<lambda>j. Suc j mod n"])
     (auto simp: Suc_mod_wrap pred_mod_wrap)

lemma sum_wrap_pred:
  fixes g :: "nat \<Rightarrow> real"
  shows "(\<Sum>j<n. g ((j + n - Suc 0) mod n)) = (\<Sum>j<n. g j)"
  by (intro sum.reindex_bij_witness[of _ "\<lambda>j. Suc j mod n" "\<lambda>j. (j + n - Suc 0) mod n"])
     (auto simp: Suc_mod_wrap pred_mod_wrap)

lemma spec_axis_sum_zero:
  fixes u :: "nat \<Rightarrow> real"
  shows "(\<Sum>idx<N. spec_fluxRight N (\<lambda>_. 1) u idx - spec_fluxLeft N (\<lambda>_. 1) u idx) = 0"
proof -
  have r: "(\<Sum>idx<N. spec_fluxRight N (\<lambda>_. 1) u idx) = 0"
    by (simp add: spec_fluxRight_def sum_subtractf sum_wrap_succ)
  have l: "(\<Sum>idx<N. spec_fluxLeft N (\<lambda>_. 1) u idx) = 0"
    by (simp add: spec_fluxLeft_def sum_subtractf sum_wrap_pred)
  show ?thesis
    by (simp only: sum_subtractf r l)
qed

lemma sum_tab2:
  fixes g :: "nat \<Rightarrow> nat \<Rightarrow> real"
  shows "(\<Sum>i<m. \<Sum>j<n. at2 (tab2 m n g) i j) = (\<Sum>i<m. \<Sum>j<n. g i j)"
  by (intro sum.cong refl) simp

subsection \<open>The length of \<open>dx\<close>\<close>

lemma bdim_same [simp]: "bdim n n = Some n"
  by (simp add: bdim_def)

lemma bdim_one_left [simp]: "bdim (Suc 0) n = Some n"
  by (simp add: bdim_def)

lemma bdim_one_right [simp]: "bdim n (Suc 0) = Some n"
  by (simp add: bdim_def)

lemma as_row_shape [simp]: "nrows (as_row u) = 1" "ncols (as_row u) = length u"
  by (simp_all add: as_row_def nrows_def)

lemma as_row_at [simp]: "at2 (as_row u) 0 j = u ! j"
  by (simp add: as_row_def at2_def)

lemma binop2_as_row_one:
  "binop2 f (as_row [c]) (tab2 m n g) = Inr (tab2 m n (\<lambda>i j. f c (g i j)))"
  by (auto simp: binop2_def bdim_def bix_def intro!: tab2_cong)

lemma binop2_as_row_column:
  "binop2 f (as_row u) (tab2 m (Suc 0) g) = Inr (tab2 m (length u) (\<lambda>i j. f (u ! j) (g i 0)))"
  by (auto simp: binop2_def bix_def intro!: tab2_cong)

lemma binop2_column_left:
  "binop2 f (tab2 m (Suc 0) g) (tab2 m n h) = Inr (tab2 m n (\<lambda>i j. f (g i 0) (h i j)))"
  by (auto simp: binop2_def bix_def intro!: tab2_cong)

lemma binop2_column_right:
  "binop2 f (tab2 m n g) (tab2 m (Suc 0) h) = Inr (tab2 m n (\<lambda>i j. f (g i j) (h i 0)))"
  by (auto simp: binop2_def bix_def intro!: tab2_cong)

lemma binop2_as_row_mismatch:
  assumes "length u \<noteq> n" "length u \<noteq> 1" "n \<noteq> 1"
  shows "binop2 f (as_row u) (tab2 m n g) = Inl ValueError"
  using assms by (simp add: binop2_def bdim_def)

lemma Laplacian2D_tab_dy0:
  assumes "0 < m" "0 < n"
  shows "Laplacian2D (tab2 m n f) (tab2 m n k) dx 0 = Inl ZeroDivisionError"
  using assms
  by (simp add: Laplacian2D_def Laplacian2D_OUT_def Let_def fluxRight_y_tab fluxLeft_y_tab
      scalar_recip_sq_def)

lemma Laplacian2D_tab_dx_mismatch:
  assumes "0 < m" "0 < n" "dy \<noteq> 0"
    and "length dx \<noteq> n" "length dx \<noteq> 1" "n \<noteq> 1"
  shows "Laplacian2D (tab2 m n f) (tab2 m n k) dx dy = Inl ValueError"
  unfolding Laplacian2D_def OUT_prefix[OF assms(1-3)]
  using assms(4-6) by (simp add: binop2_as_row_mismatch)

lemma Laplacian2D_tab_dx_one:
  assumes "0 < m" "0 < n" "dy \<noteq> 0" "length dx = 1"
  shows "\<exists>g. Laplacian2D (tab2 m n f) (tab2 m n k) dx dy = Inr (tab2 m n g)"
proof -
  from assms(4) obtain c where dx: "dx = [c]"
    by (cases dx) auto
  obtain r where r: "array_recip_sq [c] = [r]"
    by (simp add: array_recip_sq_def)
  show ?thesis
    unfolding Laplacian2D_def OUT_prefix[OF assms(1-3)]
    apply (simp add: dx r binop2_as_row_one)
    apply (rule exI)
    apply (rule refl)
    done
qed

lemma Laplacian2D_tab_single_column:
  assumes "0 < m" "dy \<noteq> 0"
  shows "\<exists>g. Laplacian2D (tab2 m (Suc 0) f) (tab2 m (Suc 0) k) dx dy = Inr (tab2 m (length dx) g)"
  unfolding Laplacian2D_def OUT_prefix[OF assms(1) zero_less_Suc assms(2)]
  apply (simp add: binop2_as_row_column binop2_column_left binop2_column_right)
  apply (rule exI)
  apply (rule refl)
  done

subsection \<open>Every entry is a number when no spacing is zero\<close>

lemma bix_less_right: "bdim a b = Some c \<Longrightarrow> i < c \<Longrightarrow> bix b i < b"
  by (auto simp: bdim_def bix_def split: if_splits)

lemma bix_less_left: "bdim a b = Some c \<Longrightarrow> i < c \<Longrightarrow> bix a i < a"
  by (auto simp: bdim_def bix_def split: if_splits)

lemma binop2_Inr_at:
  assumes "binop2 f a b = Inr c" "i < nrows c" "j < ncols c"
  shows "at2 c i j = f (at2 a (bix (nrows a) i) (bix (ncols a) j))
                       (at2 b (bix (nrows b) i) (bix (ncols b) j))"
  using assms by (auto simp: binop2_def split: option.splits)

lemma OUT_finite:
  assumes "Laplacian2D_OUT f k dx dy = Inr OUT" "0 \<notin> set dx" "i < nrows OUT" "j < ncols OUT"
  shows "\<exists>r. at2 OUT i j = Fin r"
proof -
  from assms(1) obtain o1 d2 px where
    p: "binop2 (\<lambda>c z. fl_mul c (Fin z)) (as_row (array_recip_sq dx)) d2 = Inr px"
    and s: "binop2 (\<lambda>z p. fl_add (Fin z) p) o1 px = Inr OUT"
    unfolding Laplacian2D_OUT_def Let_def bnd_eq_Inr by blast
  let ?i = "bix (nrows px) i" and ?j = "bix (ncols px) j"
  from binop2_Inr[OF s] assms(3,4) have b: "?i < nrows px" "?j < ncols px"
    by (auto dest: bix_less_right)
  from binop2_Inr[OF p] b(2) have l: "bix (length dx) ?j < length dx"
    using bix_less_left[of "length dx" "ncols d2" "ncols px" ?j] by simp
  have "at2 px ?i ?j = fl_mul (array_recip_sq dx ! bix (length dx) ?j)
      (Fin (at2 d2 (bix (nrows d2) ?i) (bix (ncols d2) ?j)))"
    using binop2_Inr_at[OF p b] by (simp add: bix_def)
  then obtain q where q: "at2 px ?i ?j = Fin q"
    using array_recip_sq_nth[OF l assms(2)] by simp
  from binop2_Inr_at[OF s assms(3,4)] q show ?thesis by simp
qed

section \<open>The result of \<open>Laplacian2D\<close>\<close>

text \<open>
  C1. The claim: at every cell where \<open>landMask\<close> is 1 the returned value is zero, whatever
  the field holds there and around. The function ends with \<open>return OUT*landMask\<close>, so a land
  cell keeps the accumulated value: on the 3 by 3 torus with the spike on the only land
  cell, the land cell returns \<open>-4\<close>.
\<close>

theorem Laplacian2D_land_cell_keeps_value:
  "Laplacian2D spike3 island3 [1, 1, 1] 1 =
     Inr (finite_array (Arr2 3 [[0, 0, 0], [0, - 4, 0], [0, 0, 0]]))"
  unfolding spike3_def island3_def by code_simp

text \<open>
  C2. The claim: for the spike on the 3 by 3 torus, all water, \<open>dx = [1,1,1]\<close> and
  \<open>dy = 1\<close>, the result is \<open>-4\<close> at the spike and \<open>+1\<close> at its four neighbours. That is
  the value of \<open>OUT\<close> before the \<open>return\<close>; the function returns it times \<open>landMask\<close>,
  which is zero everywhere.
\<close>

theorem Laplacian2D_spike_all_water:
  "Laplacian2D spike3 water3 [1, 1, 1] 1 =
     Inr (finite_array (Arr2 3 [[0, 0, 0], [0, 0, 0], [0, 0, 0]])) \<and>
   Laplacian2D_OUT spike3 water3 [1, 1, 1] 1 =
     Inr (finite_array (Arr2 3 [[0, 1, 0], [1, - 4, 1], [0, 1, 0]]))"
  unfolding spike3_def water3_def by code_simp

lemma broadcast_run:
  "Laplacian2D hills3 island3 [3] 2 =
     Inr (finite_array (Arr2 3 [[0, 0, 0], [0, - (49 / 12), 0], [0, 0, 0]]))"
  unfolding hills3_def island3_def by code_simp

lemma zero_spacing_run:
  "Laplacian2D hills3 island3 [1, 0, 1] 1 =
     Inr (Arr2 3 [[Fin 0, NaN, Fin 0], [Fin 0, NInf, Fin 0], [Fin 0, NaN, Fin 0]])"
  "Laplacian2D_OUT hills3 island3 [1, 0, 1] 1 =
     Inr (Arr2 3 [[Fin 7, NInf, Fin (- 4)], [Fin 9, NInf, Fin 1], [Fin (- 13), PInf, Fin (- 12)]])"
  unfolding hills3_def island3_def by code_simp+






text \<open>
  C5. On inputs that meet the contract each flux array holds, at every cell, the flux of the
  description along its axis: \<open>fluxRight[idx] = notLand[idx+1] * (field[idx+1] - field[idx])\<close>
  and \<open>fluxLeft[idx] = notLand[idx-1] * (field[idx] - field[idx-1])\<close> with the indices wrapped,
  \<open>notLand = 1 - landMask\<close>; and \<open>OUT\<close> before the \<open>return\<close> is the sum of the two
  contributions \<open>(fluxRight - fluxLeft) / spacing^2\<close>, the spacing being \<open>dy\<close> along the
  second axis and \<open>dx[j]\<close> along the first.
\<close>

theorem Laplacian2D_flux_form:
  assumes "inputs_ok field landMask dx dy"
  shows "\<exists>fRy fLy fRx fLx OUT.
     fluxRight_y field (smap (\<lambda>z. 1 - z) landMask) = Inr fRy \<and>
     fluxLeft_y field (smap (\<lambda>z. 1 - z) landMask) = Inr fLy \<and>
     fluxRight_x field (smap (\<lambda>z. 1 - z) landMask) fRy = Inr fRx \<and>
     fluxLeft_x field (smap (\<lambda>z. 1 - z) landMask) fLy = Inr fLx \<and>
     Laplacian2D_OUT field landMask dx dy = Inr (finite_array OUT) \<and>
     (\<forall>i<nrows field. \<forall>j<ncols field.
        at2 fRy i j = spec_fluxRight (ncols field) (\<lambda>y. 1 - at2 landMask i y) (\<lambda>y. at2 field i y) j \<and>
        at2 fLy i j = spec_fluxLeft (ncols field) (\<lambda>y. 1 - at2 landMask i y) (\<lambda>y. at2 field i y) j \<and>
        at2 fRx i j = spec_fluxRight (nrows field) (\<lambda>x. 1 - at2 landMask x j) (\<lambda>x. at2 field x j) i \<and>
        at2 fLx i j = spec_fluxLeft (nrows field) (\<lambda>x. 1 - at2 landMask x j) (\<lambda>x. at2 field x j) i \<and>
        at2 OUT i j = (at2 fRy i j - at2 fLy i j) / dy ^ 2 + (at2 fRx i j - at2 fLx i j) / (dx ! j) ^ 2)"
proof -
  let ?m = "nrows field" and ?n = "ncols field"
  let ?f = "at2 field" and ?q = "\<lambda>i j. 1 - at2 landMask i j"
  from assms have f: "field = tab2 ?m ?n ?f"
    and k: "landMask = tab2 ?m ?n (at2 landMask)"
    using wf2_tab2_conv[of field] wf2_tab2_conv[of landMask] by (simp_all add: inputs_ok_def)
  from assms have pos: "0 < ?m" "0 < ?n" by (simp_all add: inputs_ok_def)
  have q: "smap (\<lambda>z. 1 - z) landMask = tab2 ?m ?n ?q"
    by (subst k) (simp only: smap_tab2)
  have ry: "fluxRight_y field (smap (\<lambda>z. 1 - z) landMask) =
      Inr (tab2 ?m ?n (\<lambda>i j. ?q i (Suc j mod ?n) * (?f i (Suc j mod ?n) - ?f i j)))"
    unfolding q by (subst f) (simp only: fluxRight_y_tab[OF pos(2)])
  have ly: "fluxLeft_y field (smap (\<lambda>z. 1 - z) landMask) =
      Inr (tab2 ?m ?n (\<lambda>i j. ?q i ((j + ?n - 1) mod ?n) * (?f i j - ?f i ((j + ?n - 1) mod ?n))))"
    unfolding q by (subst f) (simp only: fluxLeft_y_tab[OF pos(2)])
  have rx: "fluxRight_x field (smap (\<lambda>z. 1 - z) landMask) (tab2 ?m ?n old) =
      Inr (tab2 ?m ?n (\<lambda>i j. ?q (Suc i mod ?m) j * (?f (Suc i mod ?m) j - ?f i j)))" for old
    unfolding q by (subst f) (simp only: fluxRight_x_tab[OF pos(1)])
  have lx: "fluxLeft_x field (smap (\<lambda>z. 1 - z) landMask) (tab2 ?m ?n old) =
      Inr (tab2 ?m ?n (\<lambda>i j. ?q ((i + ?m - 1) mod ?m) j * (?f i j - ?f ((i + ?m - 1) mod ?m) j)))" for old
    unfolding q by (subst f) (simp only: fluxLeft_x_tab[OF pos(1)])
  show ?thesis
    unfolding ry ly OUT_value[OF assms]
    apply (intro exI conjI)
         apply (rule refl)
        apply (rule refl)
       apply (rule rx)
      apply (rule lx)
     apply (rule refl)
    apply (simp add: spec_div_y_def spec_div_x_def spec_fluxRight_def spec_fluxLeft_def)
    done
qed

theorem Laplacian2D_flux_form_witness:
  "\<exists>fRy fLy fRx fLx OUT.
     fluxRight_y hills3 (smap (\<lambda>z. 1 - z) island3) = Inr fRy \<and>
     fluxLeft_y hills3 (smap (\<lambda>z. 1 - z) island3) = Inr fLy \<and>
     fluxRight_x hills3 (smap (\<lambda>z. 1 - z) island3) fRy = Inr fRx \<and>
     fluxLeft_x hills3 (smap (\<lambda>z. 1 - z) island3) fLy = Inr fLx \<and>
     Laplacian2D_OUT hills3 island3 steps3 2 = Inr (finite_array OUT) \<and>
     at2 fRy 1 2 = - 3 \<and> at2 fLy 1 2 = 0 \<and> at2 fRx 1 2 = 3 \<and> at2 fLx 1 2 = - 1 \<and>
     at2 OUT 1 2 = 61 / 4"
proof -
  have h: "inputs_ok hills3 island3 steps3 2"
    by (simp add: inputs_ok_def hills3_def island3_def steps3_def wf2_def nrows_def)
  have b: "(1::nat) < nrows hills3" "(2::nat) < ncols hills3"
    by (simp_all add: hills3_def nrows_def)
  from Laplacian2D_flux_form[OF h] obtain fRy fLy fRx fLx OUT where
    r: "fluxRight_y hills3 (smap (\<lambda>z. 1 - z) island3) = Inr fRy"
      "fluxLeft_y hills3 (smap (\<lambda>z. 1 - z) island3) = Inr fLy"
      "fluxRight_x hills3 (smap (\<lambda>z. 1 - z) island3) fRy = Inr fRx"
      "fluxLeft_x hills3 (smap (\<lambda>z. 1 - z) island3) fLy = Inr fLx"
      "Laplacian2D_OUT hills3 island3 steps3 2 = Inr (finite_array OUT)"
    and v: "\<forall>i<nrows hills3. \<forall>j<ncols hills3.
        at2 fRy i j = spec_fluxRight (ncols hills3) (\<lambda>y. 1 - at2 island3 i y) (\<lambda>y. at2 hills3 i y) j \<and>
        at2 fLy i j = spec_fluxLeft (ncols hills3) (\<lambda>y. 1 - at2 island3 i y) (\<lambda>y. at2 hills3 i y) j \<and>
        at2 fRx i j = spec_fluxRight (nrows hills3) (\<lambda>x. 1 - at2 island3 x j) (\<lambda>x. at2 hills3 x j) i \<and>
        at2 fLx i j = spec_fluxLeft (nrows hills3) (\<lambda>x. 1 - at2 island3 x j) (\<lambda>x. at2 hills3 x j) i \<and>
        at2 OUT i j = (at2 fRy i j - at2 fLy i j) / 2 ^ 2 + (at2 fRx i j - at2 fLx i j) / (steps3 ! j) ^ 2"
    by blast
  from v b have c: "at2 fRy 1 2 = spec_fluxRight (ncols hills3) (\<lambda>y. 1 - at2 island3 1 y) (\<lambda>y. at2 hills3 1 y) 2"
    "at2 fLy 1 2 = spec_fluxLeft (ncols hills3) (\<lambda>y. 1 - at2 island3 1 y) (\<lambda>y. at2 hills3 1 y) 2"
    "at2 fRx 1 2 = spec_fluxRight (nrows hills3) (\<lambda>x. 1 - at2 island3 x 2) (\<lambda>x. at2 hills3 x 2) 1"
    "at2 fLx 1 2 = spec_fluxLeft (nrows hills3) (\<lambda>x. 1 - at2 island3 x 2) (\<lambda>x. at2 hills3 x 2) 1"
    "at2 OUT 1 2 = (at2 fRy 1 2 - at2 fLy 1 2) / 2 ^ 2 + (at2 fRx 1 2 - at2 fLx 1 2) / (steps3 ! 2) ^ 2"
    by blast+
  have e: "at2 fRy 1 2 = - 3" "at2 fLy 1 2 = 0" "at2 fRx 1 2 = 3" "at2 fLx 1 2 = - 1"
    unfolding c by (simp_all add: spec_fluxRight_def spec_fluxLeft_def hills3_def island3_def
        at2_def nrows_def)
  have "at2 OUT 1 2 = 61 / 4"
    unfolding c(5) e by (simp add: steps3_def power2_eq_square)
  with r e show ?thesis by blast
qed




section \<open>Properties of \<open>getWeights\<close>\<close>

subsection \<open>The loop and the slices\<close>

lemma set_item_Inr:
  "set_item w k v = Inr w' \<Longrightarrow> \<exists>i<length w. py_index (length w) k = Inr i \<and> w' = w[i := v]"
  by (auto simp: set_item_def bnd_eq_Inr py_index_def split: if_splits)

lemma set_item_nat [simp]: "i < length w \<Longrightarrow> set_item w (int i) v = Inr (w[i := v])"
  by (simp add: set_item_def)

lemma fill_loop_length: "fill_loop quad F js w = Inr w' \<Longrightarrow> length w' = length w"
proof (induction js arbitrary: w)
  case Nil
  then show ?case by simp
next
  case (Cons i js)
  then show ?case
    by (auto simp: bnd_eq_Inr dest!: set_item_Inr)
qed

lemma fill_loop_returns:
  assumes "\<forall>i\<in>set js. i < length w" "distinct js"
  shows "\<exists>w'. fill_loop quad F js w = Inr w' \<and> length w' = length w \<and>
           (\<forall>i<length w. w' ! i = (if i \<in> set js then quad (integrand F i) 0 pi else w ! i))"
  using assms
proof (induction js arbitrary: w)
  case Nil
  then show ?case by simp
next
  case (Cons i js)
  let ?w = "w[i := quad (integrand F i) 0 pi]"
  from Cons.prems have "\<forall>k\<in>set js. k < length ?w" "distinct js" by simp_all
  from Cons.IH[OF this] obtain w' where
    w': "fill_loop quad F js ?w = Inr w'" "length w' = length w"
      "\<forall>k<length w. w' ! k = (if k \<in> set js then quad (integrand F k) 0 pi else ?w ! k)"
    by auto
  from Cons.prems have i: "i < length w" "i \<notin> set js" by simp_all
  have "fill_loop quad F (i # js) w = Inr w'"
    using i w'(1) by simp
  moreover have "\<forall>k<length w. w' ! k =
      (if k \<in> set (i # js) then quad (integrand F k) 0 pi else w ! k)"
    using w'(3) i by (auto simp: nth_list_update)
  ultimately show ?case using w'(2) by blast
qed

lemma slice1_prefix:
  "n \<le> length w \<Longrightarrow> slice1 w 0 (int n) = tab1 n (\<lambda>i. w ! i)"
  by (simp add: slice1_def Let_def py_bound_def min_def)

lemma slice1_tail:
  "0 < length w \<Longrightarrow> slice1 w 1 (int (length w)) = tab1 (length w - 1) (\<lambda>i. w ! Suc i)"
  by (auto simp: slice1_def Let_def min_def intro!: tab1_cong)

lemma set_slice1_Inr:
  "set_slice1 w lo hi v = Inr w' \<Longrightarrow> length w' = length w"
  by (auto simp: set_slice1_def Let_def split: if_splits)

lemma set_slice1_tail:
  assumes "length t = length w - 1" "0 < length w"
  shows "set_slice1 w 1 (int (length w)) t =
     Inr (tab1 (length w) (\<lambda>i. if 1 \<le> i then t ! (i - 1) else w ! i))"
  using assms by (auto simp: set_slice1_def Let_def fits_def bix_def min_def intro!: tab1_cong)

lemma np_sum_tab1: "np_sum (tab1 n g) = (\<Sum>i<n. g i)"
  by (simp add: np_sum_def tab1_def interv_sum_list_conv_sum_set_nat atLeast0LessThan)

lemma sum_from_one: "(\<Sum>i<n. g (Suc i)) = (\<Sum>i = 1..n. (g i :: real))"
  by (intro sum.reindex_bij_witness[of _ "\<lambda>i. i - 1" Suc]) auto

lemma getWeights_centre_tap:
  assumes "getWeights F quad solve n = Inr w"
  shows "length w = n + 1 \<and> w ! 0 = 1 - 2 * (\<Sum>i = 1..n. w ! i)"
proof -
  from assms obtain w1 t w2 where
    l: "fill_loop quad F [0..<n] (np_zeros1 (n + 1)) = Inr w1"
    and s: "set_slice1 w1 1 (int (length w1)) t = Inr w2"
    and f: "set_item w2 0 (1 - 2 * np_sum (slice1 w2 1 (int (length w2)))) = Inr w"
    unfolding getWeights_def Let_def bnd_eq_Inr by blast
  have n1: "length w1 = n + 1"
    using fill_loop_length[OF l] by (simp add: np_zeros1_def)
  with set_slice1_Inr[OF s] have n2: "length w2 = n + 1" by simp
  have "set_item w2 0 v = Inr (w2[0 := v])" for v
    using n2 set_item_nat[of 0 w2 v] by simp
  with f have w: "w = w2[0 := 1 - 2 * np_sum (slice1 w2 1 (int (length w2)))]"
    by simp
  have "slice1 w2 1 (int (length w2)) = tab1 (length w2 - 1) (\<lambda>i. w2 ! Suc i)"
    by (rule slice1_tail) (simp add: n2)
  then have "np_sum (slice1 w2 1 (int (length w2))) = (\<Sum>i = 1..n. w2 ! i)"
    by (simp only: np_sum_tab1 sum_from_one n2) simp
  moreover have "(\<Sum>i = 1..n. w ! i) = (\<Sum>i = 1..n. w2 ! i)"
    by (intro sum.cong refl) (simp add: w)
  moreover have "w ! 0 = 1 - 2 * np_sum (slice1 w2 1 (int (length w2)))"
    using n2 by (simp add: w)
  moreover have "length w = n + 1"
    using n2 by (simp add: w)
  ultimately show ?thesis by simp
qed

lemma sum_list_tl:
  assumes "length w = n + 1"
  shows "sum_list (tl w) = (\<Sum>i = 1..n. (w ! i :: real))"
proof -
  have "tl w = map (\<lambda>i. w ! Suc i) [0..<n]"
    using assms by (intro nth_equalityI) (simp_all add: nth_tl)
  then have "sum_list (tl w) = (\<Sum>i<n. w ! Suc i)"
    by (simp add: interv_sum_list_conv_sum_set_nat atLeast0LessThan)
  then show ?thesis by (simp add: sum_from_one)
qed

lemma fill_loop_upt:
  "\<exists>w. fill_loop quad F [0..<n] (np_zeros1 (n + 1)) = Inr w \<and> length w = n + 1 \<and>
       (\<forall>i<n. w ! i = quad (integrand F i) 0 pi)"
proof -
  have "\<forall>i\<in>set [0..<n]. i < length (np_zeros1 (n + 1))" "distinct [0..<n]"
    by (simp_all add: np_zeros1_def)
  from fill_loop_returns[OF this, of quad F] show ?thesis
    by (auto simp: np_zeros1_def)
qed

lemma spec_rhs_nth:
  "i < n \<Longrightarrow> spec_rhs F quad n ! i = quad (integrand F i) 0 pi"
proof -
  assume "i < n"
  then have "[1..<n + 1] ! i = i + 1" by (simp del: upt_Suc)
  moreover have "(\<lambda>k. 2 * (F k - 1) * (cos (real (i + 1) * k) - 1)) = integrand F i"
    by (rule ext) (simp add: integrand_def add.commute)
  ultimately show ?thesis
    using \<open>i < n\<close> by (simp add: spec_rhs_def del: upt_Suc)
qed

lemma length_spec_rhs [simp]: "length (spec_rhs F quad n) = n"
  by (simp add: spec_rhs_def del: upt_Suc)

lemma spec_rhs_tab1: "spec_rhs F quad n = tab1 n (\<lambda>i. quad (integrand F i) 0 pi)"
  by (rule nth_equalityI) (simp_all add: spec_rhs_nth)

lemma filter_matrix_shape [simp]:
  "nrows (filter_matrix n) = n" "ncols (filter_matrix n) = n"
  by (simp_all add: filter_matrix_def np_eye_def)

lemma filter_matrix_at:
  "i < n \<Longrightarrow> j < n \<Longrightarrow> at2 (filter_matrix n) i j = 2 * pi * ((if i = j then 1 else 0) + 2)"
  by (simp add: filter_matrix_def np_eye_def)

lemma getWeights_value:
  assumes "solve (filter_matrix n) (spec_rhs F quad n) = Inr v" and "length v = n"
  shows "getWeights F quad solve n = Inr ((1 - 2 * sum_list v) # v)"
proof -
  from fill_loop_upt[of quad F n] obtain w1 where
    l: "fill_loop quad F [0..<n] (np_zeros1 (n + 1)) = Inr w1"
    and n1: "length w1 = n + 1"
    and b: "\<forall>i<n. w1 ! i = quad (integrand F i) 0 pi"
    by blast
  have rhs: "slice1 w1 0 (int n) = spec_rhs F quad n"
    using n1 b by (simp add: slice1_prefix spec_rhs_tab1)
  let ?w2 = "tab1 (length w1) (\<lambda>i. if 1 \<le> i then v ! (i - 1) else w1 ! i)"
  have s: "set_slice1 w1 1 (int (length w1)) v = Inr ?w2"
    by (rule set_slice1_tail) (simp_all add: n1 assms(2))
  have n2: "length ?w2 = n + 1" by (simp add: n1)
  have t0: "slice1 ?w2 1 (int (length ?w2)) = tab1 (length ?w2 - 1) (\<lambda>i. ?w2 ! Suc i)"
    by (rule slice1_tail) (simp add: n1)
  have t: "slice1 ?w2 1 (int (length ?w2)) = v"
    unfolding t0 by (rule nth_equalityI) (simp_all add: n1 assms(2))
  let ?w = "?w2[0 := 1 - 2 * np_sum v]"
  have f: "set_item ?w2 0 (1 - 2 * np_sum v) = Inr ?w"
    using n2 set_item_nat[of 0 ?w2] by simp
  have g: "getWeights F quad solve n = Inr ?w"
    unfolding getWeights_def Let_def l bnd_Inr rhs assms(1) s t f ..
  have "?w = (1 - 2 * sum_list v) # v"
    by (rule nth_equalityI) (auto simp: n1 assms(2) nth_Cons' np_sum_def nth_list_update)
  with g show ?thesis by simp
qed

subsection \<open>The linear system has one solution\<close>

lemma rows_tab2_nth: "i < m \<Longrightarrow> rows (tab2 m n g) ! i = map (g i) [0..<n]"
  by (simp add: tab2_def)

lemma sum_list_map2_upt:
  fixes v :: "real list"
  assumes "length v = n"
  shows "sum_list (map2 (*) (map g [0..<n]) v) = (\<Sum>j<n. g j * v ! j)"
proof -
  have "map2 (*) (map g [0..<n]) v = map (\<lambda>j. g j * v ! j) [0..<n]"
    using assms by (intro nth_equalityI) simp_all
  then show ?thesis
    by (simp add: interv_sum_list_conv_sum_set_nat atLeast0LessThan)
qed

lemma filter_matrix_tab:
  "filter_matrix n = tab2 n n (\<lambda>i j. 2 * pi * ((if i = j then 1 else 0) + 2))"
  by (simp add: filter_matrix_def np_eye_def)

lemma matvec_filter_matrix:
  assumes "length v = n" "i < n"
  shows "matvec (filter_matrix n) v ! i = 2 * pi * (v ! i + 2 * (\<Sum>j<n. v ! j))"
proof -
  have "matvec (filter_matrix n) v ! i =
      (\<Sum>j<n. 2 * pi * ((if i = j then 1 else 0) + 2) * v ! j)"
    using assms
    by (simp add: matvec_def filter_matrix_tab rows_tab2_nth nrows_def[symmetric]
        sum_list_map2_upt)
  also have "\<dots> = (\<Sum>j<n. 2 * pi * ((if i = j then v ! j else 0) + 2 * v ! j))"
    by (intro sum.cong refl) (simp add: algebra_simps)
  also have "\<dots> = 2 * pi * ((\<Sum>j<n. (if i = j then v ! j else 0)) + 2 * (\<Sum>j<n. v ! j))"
    by (simp only: sum_distrib_left[symmetric] sum.distrib)
  also have "(\<Sum>j<n. (if i = j then v ! j else 0)) = v ! i"
    using assms(2) by simp
  finally show ?thesis .
qed

lemma filter_matrix_injective:
  assumes "matvec (filter_matrix n) u = matvec (filter_matrix n) v"
    and "length u = n" "length v = n"
  shows "u = v"
proof -
  define d where "d = (\<lambda>i. u ! i - v ! i)"
  have e: "d i + 2 * (\<Sum>j<n. d j) = 0" if "i < n" for i
  proof -
    from assms(1) have "matvec (filter_matrix n) u ! i = matvec (filter_matrix n) v ! i"
      by simp
    then have "2 * pi * (u ! i + 2 * (\<Sum>j<n. u ! j)) = 2 * pi * (v ! i + 2 * (\<Sum>j<n. v ! j))"
      using matvec_filter_matrix[OF assms(2) that] matvec_filter_matrix[OF assms(3) that]
      by simp
    then have "u ! i + 2 * (\<Sum>j<n. u ! j) = v ! i + 2 * (\<Sum>j<n. v ! j)"
      by simp
    then show ?thesis
      by (simp add: d_def sum_subtractf algebra_simps)
  qed
  have "(\<Sum>i<n. d i + 2 * (\<Sum>j<n. d j)) = 0"
    using e by simp
  then have "(1 + 2 * real n) * (\<Sum>j<n. d j) = 0"
    by (simp add: sum.distrib algebra_simps)
  then have s: "(\<Sum>j<n. d j) = 0"
    by (simp add: add_nonneg_eq_0_iff)
  have "u ! i = v ! i" if "i < n" for i
    using e[OF that] s by (simp add: d_def)
  then show ?thesis
    using assms(2,3) by (intro nth_equalityI) simp_all
qed

subsection \<open>A run on a sharp target response\<close>

lemma upt_2: "[0..<2] = [0, Suc 0]" "[Suc 0..<3] = [Suc 0, 2]"
  by (simp_all add: upt_rec)

lemma step_response_mid: "step_response ((0 + pi) / 2) = 0"
  using pi_ge_two by (simp add: step_response_def)

lemma sample_rhs: "spec_rhs step_response midpoint_quad 2 = [2 * pi, 4 * pi]"
  using step_response_mid by (simp add: spec_rhs_def upt_2 midpoint_quad_def)

lemma sample_matrix: "filter_matrix 2 = Arr2 2 [[6 * pi, 4 * pi], [4 * pi, 6 * pi]]"
  by (simp add: filter_matrix_def np_eye_def smap_def tab2_def nrows_def at2_def upt_2)

lemma sample_solve: "solve2 (filter_matrix 2) [2 * pi, 4 * pi] = Inr [- (1 / 5), 4 / 5]"
  by (simp add: sample_matrix solve2_def nrows_def at2_def field_simps)

lemma sample_matvec: "matvec (filter_matrix 2) [- (1 / 5), 4 / 5] = [2 * pi, 4 * pi]"
  by (simp add: sample_matrix matvec_def)

lemma sample_weights:
  "getWeights step_response midpoint_quad solve2 2 = Inr [- (1 / 5), - (1 / 5), 4 / 5]"
proof -
  have l: "fill_loop midpoint_quad step_response [0..<2] (np_zeros1 (2 + 1)) = Inr [2 * pi, 4 * pi, 0]"
    using step_response_mid
    by (simp add: upt_2 np_zeros1_def numeral_3_eq_3 integrand_def midpoint_quad_def
        set_item_def py_index_def)
  have s: "slice1 [2 * pi, 4 * pi, 0] 0 (int 2) = [2 * pi, 4 * pi]"
    by (simp add: slice1_def py_bound_def tab1_def upt_2)
  have a: "set_slice1 [2 * pi, 4 * pi, 0] 1 (int (length [2 * pi, 4 * pi, 0::real])) [- (1 / 5), 4 / 5]
      = Inr [2 * pi, - (1 / 5), 4 / 5]"
    by (simp add: set_slice1_def py_bound_def fits_def tab1_def bix_def upt_rec[of 0 3]
        upt_rec[of 1 3] upt_rec[of 2 3])
  have t: "slice1 [2 * pi, - (1 / 5), 4 / 5] 1 (int (length [2 * pi, - (1 / 5), 4 / 5 :: real]))
      = [- (1 / 5), 4 / 5]"
    by (simp add: slice1_def py_bound_def tab1_def upt_2)
  show ?thesis
    unfolding getWeights_def Let_def l bnd_Inr s sample_solve a t
    by (simp add: np_sum_def set_item_def)
qed

section \<open>The result of \<open>getWeights\<close>\<close>

text \<open>
  C6. Whatever the interpolant, the quadrature and the solver are, the weights \<open>w\<close> that
  \<open>getWeights\<close> returns satisfy \<open>w[0] + 2 * (w[1] + ... + w[n]) = 1\<close>: the symmetric
  kernel of length \<open>2n+1\<close> built from them sums to 1. And it does return weights when
  the solver answers the system with a vector of length \<open>n\<close>.
\<close>

theorem getWeights_unit_sum:
  "(getWeights F quad solve n = Inr w \<longrightarrow>
      w ! 0 + 2 * (\<Sum>i = 1..n. w ! i) = 1 \<and>
      length (full_kernel w) = 2 * n + 1 \<and> sum_list (full_kernel w) = 1) \<and>
   (solve (filter_matrix n) (spec_rhs F quad n) = Inr v \<and> length v = n \<longrightarrow>
      (\<exists>w'. getWeights F quad solve n = Inr w'))"
proof (intro conjI impI)
  assume r: "getWeights F quad solve n = Inr w"
  from getWeights_centre_tap[OF r]
  have n: "length w = n + 1" and c: "w ! 0 = 1 - 2 * (\<Sum>i = 1..n. w ! i)" by simp_all
  from n have "w = w ! 0 # tl w"
    by (cases w) simp_all
  then have "sum_list w = w ! 0 + sum_list (tl w)"
    by (metis sum_list.Cons)
  then have k: "sum_list (full_kernel w) = w ! 0 + 2 * (\<Sum>i = 1..n. w ! i)"
    by (simp add: full_kernel_def sum_list_tl[OF n])
  from c show "w ! 0 + 2 * (\<Sum>i = 1..n. w ! i) = 1" by simp
  from n show "length (full_kernel w) = 2 * n + 1" by (simp add: full_kernel_def)
  from k c show "sum_list (full_kernel w) = 1" by simp
next
  assume "solve (filter_matrix n) (spec_rhs F quad n) = Inr v \<and> length v = n"
  then show "\<exists>w'. getWeights F quad solve n = Inr w'"
    using getWeights_value[where solve = solve and v = v and n = n and F = F and quad = quad]
    by blast
qed

theorem getWeights_unit_sum_witness:
  "getWeights step_response midpoint_quad solve2 2 = Inr [- (1 / 5), - (1 / 5), 4 / 5] \<and>
   [- (1 / 5), - (1 / 5), 4 / 5] ! 0 + 2 * (\<Sum>i = 1..2. [- (1 / 5), - (1 / 5), 4 / 5 :: real] ! i) = 1 \<and>
   length (full_kernel [- (1 / 5), - (1 / 5), 4 / 5]) = 2 * 2 + 1 \<and>
   sum_list (full_kernel [- (1 / 5), - (1 / 5), 4 / 5]) = 1 \<and>
   (\<exists>w'. getWeights step_response midpoint_quad solve2 2 = Inr w')"
proof -
  have s: "solve2 (filter_matrix 2) (spec_rhs step_response midpoint_quad 2) = Inr [- (1 / 5), 4 / 5]
      \<and> length [- (1 / 5), 4 / 5 :: real] = 2"
    by (simp only: sample_rhs sample_solve) simp
  from getWeights_unit_sum[where F = step_response and quad = midpoint_quad and solve = solve2
      and n = 2 and w = "[- (1 / 5), - (1 / 5), 4 / 5]" and v = "[- (1 / 5), 4 / 5]"]
    sample_weights s
  show ?thesis by blast
qed

text \<open>
  C7. When the solver answers the system of matrix \<open>A\<close> and right-hand side \<open>b\<close> with a
  vector \<open>v\<close> of length \<open>n\<close> that solves it, \<open>getWeights\<close> returns \<open>n+1\<close> weights whose tail
  is \<open>v\<close>, so solves \<open>A w_tail = b\<close> and is the only vector that does, and whose centre tap is
  \<open>w[0] = 1 - 2 * (w[1] + ... + w[n])\<close>. Here \<open>A\<close> is the \<open>n\<close> by \<open>n\<close> matrix with
  \<open>A[i][j] = 2 pi (delta_ij + 2)\<close> and \<open>b[i-1]\<close> is the quadrature over \<open>[0, pi]\<close> of
  \<open>2 (F(k) - 1) (cos(i k) - 1)\<close> for \<open>i = 1 .. n\<close>.
\<close>

theorem getWeights_linear_system:
  assumes "solve (filter_matrix n) (spec_rhs F quad n) = Inr v"
    and "length v = n"
    and "matvec (filter_matrix n) v = spec_rhs F quad n"
  shows "\<exists>w. getWeights F quad solve n = Inr w \<and> length w = n + 1 \<and>
           tl w = v \<and> matvec (filter_matrix n) (tl w) = spec_rhs F quad n \<and>
           (\<forall>u. length u = n \<and> matvec (filter_matrix n) u = spec_rhs F quad n \<longrightarrow> u = tl w) \<and>
           w ! 0 = 1 - 2 * (\<Sum>i = 1..n. w ! i) \<and>
           nrows (filter_matrix n) = n \<and> ncols (filter_matrix n) = n \<and>
           (\<forall>i<n. \<forall>j<n. at2 (filter_matrix n) i j = 2 * pi * ((if i = j then 1 else 0) + 2)) \<and>
           length (spec_rhs F quad n) = n \<and>
           (\<forall>i<n. spec_rhs F quad n ! i =
              quad (\<lambda>k. 2 * (F k - 1) * (cos (real (i + 1) * k) - 1)) 0 pi)"
proof -
  let ?w = "(1 - 2 * sum_list v) # v"
  have g: "getWeights F quad solve n = Inr ?w"
    by (rule getWeights_value[where solve = solve, OF assms(1,2)])
  have r: "\<forall>i<n. spec_rhs F quad n ! i =
      quad (\<lambda>k. 2 * (F k - 1) * (cos (real (i + 1) * k) - 1)) 0 pi"
    by (simp add: spec_rhs_def del: upt_Suc)
  have u: "\<forall>u. length u = n \<and> matvec (filter_matrix n) u = spec_rhs F quad n \<longrightarrow> u = v"
  proof (intro allI impI)
    fix u
    assume "length u = n \<and> matvec (filter_matrix n) u = spec_rhs F quad n"
    then have "matvec (filter_matrix n) u = matvec (filter_matrix n) v" "length u = n"
      by (simp_all only: assms(3))
    then show "u = v"
      using assms(2) by (rule filter_matrix_injective)
  qed
  have c: "length ?w = n + 1" "?w ! 0 = 1 - 2 * (\<Sum>i = 1..n. ?w ! i)"
    using getWeights_centre_tap[OF g] by simp_all
  have t: "tl ?w = v" by simp
  have a: "\<forall>i<n. \<forall>j<n. at2 (filter_matrix n) i j = 2 * pi * ((if i = j then 1 else 0) + 2)"
    by (simp add: filter_matrix_at)
  show ?thesis
    apply (rule exI[of _ ?w])
    apply (intro conjI)
              apply (rule g)
             apply (rule c(1))
            apply (rule t)
           apply (simp only: t assms(3))
          apply (simp only: t)
          apply (rule u)
         apply (rule c(2))
        apply (rule filter_matrix_shape(1))
       apply (rule filter_matrix_shape(2))
      apply (rule a)
     apply (rule length_spec_rhs)
    apply (rule r)
    done
qed

theorem getWeights_linear_system_witness:
  "\<exists>w. getWeights step_response midpoint_quad solve2 2 = Inr w \<and> length w = 2 + 1 \<and>
       tl w = [- (1 / 5), 4 / 5] \<and>
       matvec (filter_matrix 2) (tl w) = spec_rhs step_response midpoint_quad 2"
proof -
  have 1: "solve2 (filter_matrix 2) (spec_rhs step_response midpoint_quad 2) = Inr [- (1 / 5), 4 / 5]"
    by (simp only: sample_rhs sample_solve)
  have 2: "length [- (1 / 5), 4 / 5 :: real] = 2" by simp
  have 3: "matvec (filter_matrix 2) [- (1 / 5), 4 / 5] = spec_rhs step_response midpoint_quad 2"
    by (simp only: sample_rhs sample_matvec)
  from getWeights_linear_system[where solve = solve2 and F = step_response
      and quad = midpoint_quad and n = 2 and v = "[- (1 / 5), 4 / 5]", OF 1 2 3]
  show ?thesis by blast
qed

section \<open>The target response\<close>

lemma pchip_edge_flat [simp]: "pchip_edge h0 h1 0 m1 = 0"
proof -
  define d where "d = ((2 * h0 + h1) * 0 - h0 * m1) / (h0 + h1)"
  have e: "pchip_edge h0 h1 0 m1 =
      (if sgn d \<noteq> sgn 0 then 0 else if sgn 0 \<noteq> sgn m1 \<and> 3 * \<bar>0\<bar> < \<bar>d\<bar> then 3 * 0 else d)"
    unfolding pchip_edge_def d_def Let_def ..
  show ?thesis
  proof (cases "d = 0")
    case True
    then show ?thesis unfolding e by simp
  next
    case False
    then have "sgn d \<noteq> sgn 0" by (simp add: sgn_if)
    then show ?thesis unfolding e by simp
  qed
qed

lemma pchip_inner_flat [simp]: "pchip_inner h0 h1 0 m1 = 0" "pchip_inner h0 h1 m0 0 = 0"
  by (simp_all add: pchip_inner_def)

lemma response_derivatives:
  "pchip_derivatives (response_knots x) response_values = [0, 0, 0, 0]"
  by (simp add: pchip_derivatives_def response_knots_def response_values_def slopes_def Let_def)

lemma hermite_flat:
  "hermite x0 x1 1 1 0 0 k = 1" "hermite x0 x1 0 0 0 0 k = 0"
  "hermite x0 x1 1 0 0 0 k = 2 * ((k - x0) / (x1 - x0)) ^ 3 - 3 * ((k - x0) / (x1 - x0)) ^ 2 + 1"
  by (simp_all add: hermite_def Let_def algebra_simps)

lemma response_knots_increasing: "1 < x \<Longrightarrow> sorted_wrt (<) (response_knots x)"
proof -
  assume x: "1 < x"
  have p: "1 < pi" using pi_ge_two by simp
  from x p have "0 < 1 / x" "1 / x < pi / x" "pi / x < pi" "0 < pi / x" "0 < pi" "1 / x < pi"
    by (simp_all add: field_simps less_trans[of _ 1])
  then show ?thesis
    by (simp add: response_knots_def)
qed

lemma target_response_cases:
  assumes "1 < x"
  shows "target_response x = Inr (\<lambda>k.
     if k \<le> 1 / x then 1
     else if k \<le> pi / x then
       2 * ((k - 1 / x) / (pi / x - 1 / x)) ^ 3 - 3 * ((k - 1 / x) / (pi / x - 1 / x)) ^ 2 + 1
     else 0)"
proof -
  have "target_response x =
      Inr (pchip_eval (response_knots x) response_values [0, 0, 0, 0])"
    using assms response_knots_increasing[OF assms]
    by (simp add: target_response_def PchipInterpolator_def response_derivatives)
       (simp add: response_knots_def response_values_def)
  moreover have "pchip_eval (response_knots x) response_values [0, 0, 0, 0] = (\<lambda>k.
     if k \<le> 1 / x then 1
     else if k \<le> pi / x then
       2 * ((k - 1 / x) / (pi / x - 1 / x)) ^ 3 - 3 * ((k - 1 / x) / (pi / x - 1 / x)) ^ 2 + 1
     else 0)"
    by (rule ext) (simp add: response_knots_def response_values_def hermite_flat)
  ultimately show ?thesis by simp
qed

lemma step_bounds:
  fixes t :: real
  assumes "0 \<le> t" "t \<le> 1"
  shows "0 \<le> 2 * t ^ 3 - 3 * t ^ 2 + 1" "2 * t ^ 3 - 3 * t ^ 2 + 1 \<le> 1"
proof -
  have "2 * t ^ 3 - 3 * t ^ 2 + 1 = (1 - t) ^ 2 * (1 + 2 * t)"
    by (simp add: power2_eq_square power3_eq_cube algebra_simps)
  moreover have "0 \<le> (1 - t) ^ 2 * (1 + 2 * t)"
    using assms by (intro mult_nonneg_nonneg) simp_all
  ultimately show "0 \<le> 2 * t ^ 3 - 3 * t ^ 2 + 1" by simp
  have "2 * t ^ 3 - 3 * t ^ 2 + 1 = 1 - t ^ 2 * (3 - 2 * t)"
    by (simp add: power2_eq_square power3_eq_cube algebra_simps)
  moreover have "0 \<le> t ^ 2 * (3 - 2 * t)"
    using assms by (intro mult_nonneg_nonneg) simp_all
  ultimately show "2 * t ^ 3 - 3 * t ^ 2 + 1 \<le> 1" by simp
qed

lemma step_antimono:
  fixes s t :: real
  assumes "0 \<le> s" "s \<le> t" "t \<le> 1"
  shows "2 * t ^ 3 - 3 * t ^ 2 + 1 \<le> 2 * s ^ 3 - 3 * s ^ 2 + 1"
proof -
  have d: "(2 * s ^ 3 - 3 * s ^ 2 + 1) - (2 * t ^ 3 - 3 * t ^ 2 + 1) =
      (t - s) * (3 * (s + t) - 2 * (s ^ 2 + s * t + t ^ 2))"
    by (simp add: power2_eq_square power3_eq_cube algebra_simps)
  have "s ^ 2 \<le> s" "t ^ 2 \<le> t"
    using assms by (simp_all add: power2_eq_square mult_left_le)
  moreover have "s * t \<le> s" "s * t \<le> t"
    using assms by (simp_all add: mult_left_le mult_right_le_one_le mult_left_le_one_le)
  ultimately have "0 \<le> 3 * (s + t) - 2 * (s ^ 2 + s * t + t ^ 2)" by simp
  with assms have "0 \<le> (t - s) * (3 * (s + t) - 2 * (s ^ 2 + s * t + t ^ 2))"
    by (intro mult_nonneg_nonneg) simp_all
  with d show ?thesis by simp
qed



end
